theory Spec2Isabelle
  imports Main "HOL-Library.Word"
begin

section \<open>RF cloner firmware (code/RF\_clone.ino): data model\<close>

text \<open>
  The sketch runs on an ESP32: \<open>unsigned long\<close>, \<open>unsigned int\<close> and \<open>int\<close> are
  all 32 bits wide. Unsigned values are \<open>32 word\<close> (\<open>+\<close> and \<open>-\<close> wrap, \<open><\<close> and
  \<open>\<le>\<close> compare unsigned); the two \<open>int\<close> variables \<open>menuSelection\<close> and
  \<open>transmitCount\<close> are \<open>32 word\<close> read through \<open>sint\<close>.
\<close>

type_synonym u32 = "32 word"
type_synonym int32 = "32 word"

text \<open>\<open>enum Mode { MENU, READ, EMULATE, JAM }\<close> (line 62).\<close>

datatype Mode = MENU | READ | EMULATE | JAM

text \<open>The integer an enumerator converts to, as \<open>String(currentMode)\<close> prints it.\<close>

fun modeNumber :: "Mode \<Rightarrow> int" where
  "modeNumber MENU = 0"
| "modeNumber READ = 1"
| "modeNumber EMULATE = 2"
| "modeNumber JAM = 3"

text \<open>\<open>struct ButtonState\<close> (lines 72-82); the field \<open>back\<close> is written \<open>back'\<close>.\<close>

record ButtonState =
  up :: bool
  down :: bool
  select :: bool
  back' :: bool
  upLast :: bool
  downLast :: bool
  selectLast :: bool
  backLast :: bool
  lastPress :: u32

text \<open>\<open>struct RFSignal\<close> (lines 86-93); the field \<open>value\<close> is written \<open>value'\<close>.\<close>

record RFSignal =
  value' :: u32
  bitLength :: u32
  protocol :: u32
  pulseLength :: u32
  valid :: bool
  captureTime :: u32

subsection \<open>Calls to the collaborators, as a trace\<close>

text \<open>
  The serial log, the radio library, the GPIO pins and the display are outside the
  sketch. Every call the sketch makes to them that has an effect is appended to the
  trace \<open>effects\<close> of the state, in program order. A printed line is kept as its
  pieces. The five frame routines (lines 334-550) and \<open>bootAnimation\<close> (lines
  111-139) only issue display-driver calls and write no program variable; each is one
  event naming the routine. What the frame of Emulate mode puts on the screen is
  spelled out further down (\<open>drawEmulateMode\<close>).
\<close>

datatype piece = Str string | Dec int | Hex u32

datatype level = LOW | HIGH

datatype event =
    SerialPrint "piece list"
  | SerialPrintln "piece list"
  | RxAvailable bool
  | RxResetAvailable
  | TxSetProtocol u32
  | TxSetPulseLength u32
  | TxSend u32 u32
  | SerialBegin nat
  | PinModeInputPullup nat
  | PinModeOutput nat
  | DigitalWrite nat level
  | Delay nat
  | RxEnableReceive nat
  | TxEnableTransmit nat
  | DisplayBegin bool
  | DisplayClear
  | DisplayFlush
  | BootAnimation
  | DisplayWarning string string
  | DrawMenu
  | DrawReadMode
  | DrawEmulateMode
  | DrawJamMode

text \<open>The global variables of the sketch (lines 63-105) and the trace.\<close>

record sys =
  currentMode :: Mode
  menuSelection :: int32
  rfModuleConnected :: bool
  lastRFCheck :: u32
  btnState :: ButtonState
  capturedSignal :: RFSignal
  isTransmitting :: bool
  isJamming :: bool
  lastTransmit :: u32
  lastJam :: u32
  transmitCount :: int32
  animFrame :: u32
  lastAnimUpdate :: u32
  effects :: "event list"

text \<open>The initialisers of the globals: the state when \<open>setup()\<close> starts.\<close>

definition initial :: sys where
  "initial = \<lparr> currentMode = MENU, menuSelection = 0, rfModuleConnected = False,
     lastRFCheck = 0,
     btnState = \<lparr> up = False, down = False, select = False, back' = False,
       upLast = False, downLast = False, selectLast = False, backLast = False,
       lastPress = 0 \<rparr>,
     capturedSignal = \<lparr> value' = 0, bitLength = 0, protocol = 0, pulseLength = 0,
       valid = False, captureTime = 0 \<rparr>,
     isTransmitting = False, isJamming = False, lastTransmit = 0, lastJam = 0,
     transmitCount = 0, animFrame = 0, lastAnimUpdate = 0, effects = [] \<rparr>"

definition menuItems :: int32 where
  "menuItems = 3"

definition emit :: "event \<Rightarrow> sys \<Rightarrow> sys" where
  "emit e s = s\<lparr> effects := effects s @ [e] \<rparr>"

subsection \<open>What the environment supplies\<close>

text \<open>
  \<open>digitalRead\<close> is a function from the pin number to its level. Each \<open>millis()\<close>
  call is a separate reading of the clock, passed to the function that makes it.
\<close>

type_synonym gpio = "nat \<Rightarrow> level"

definition BTN_UP :: nat where "BTN_UP = 12"
definition BTN_DOWN :: nat where "BTN_DOWN = 13"
definition BTN_SELECT :: nat where "BTN_SELECT = 15"
definition BTN_BACK :: nat where "BTN_BACK = 27"
definition RF_TX_PIN :: nat where "RF_TX_PIN = 4"
definition RF_RX_PIN :: nat where "RF_RX_PIN = 5"

text \<open>The timing constants of lines 45-49.\<close>

abbreviation DEBOUNCE_DELAY :: u32 where "DEBOUNCE_DELAY \<equiv> 200"
abbreviation RF_CHECK_INTERVAL :: u32 where "RF_CHECK_INTERVAL \<equiv> 3000"
abbreviation ANIM_SPEED :: u32 where "ANIM_SPEED \<equiv> 120"
abbreviation TRANSMIT_INTERVAL :: u32 where "TRANSMIT_INTERVAL \<equiv> 500"
abbreviation JAM_INTERVAL :: u32 where "JAM_INTERVAL \<equiv> 50"

text \<open>
  What \<open>checkRFModule\<close> observes: the clock at line 147, then for each turn of the
  busy-wait the clock at line 148 and the answer of \<open>rfReceiver.available()\<close> at
  line 149 (read only inside the window), and the level read back at line 159.
\<close>

record probe_obs =
  probeStart :: u32
  probePolls :: "(u32 \<times> bool) list"
  txReadback :: level

text \<open>What the receiver holds when Read mode polls it (lines 275-282).\<close>

record rx_obs =
  rxAvailable :: bool
  rxValue :: u32
  rxBitlength :: u32
  rxProtocol :: u32
  rxDelay :: u32

text \<open>
  One pass of \<open>loop()\<close>: the clock readings at lines 617, 625, 629, 631, 186 and at
  the mode's radio action (284, 298 or 315: one of them per pass), the probe's
  observations, the button pins, the receiver and the result of \<open>random\<close> (line 323).
\<close>

text \<open>
  What \<open>setup()\<close> observes: the button pins (line 572), whether \<open>display.begin\<close>
  succeeds (line 580) and the probe (line 599).
\<close>

record setup_in =
  setupPins :: gpio
  displayOk :: bool
  setupProbe :: probe_obs

record tick_in =
  tCheck :: u32
  probe :: probe_obs
  tChecked :: u32
  tAnim :: u32
  tAnimSet :: u32
  pins :: gpio
  tButtons :: u32
  rx :: rx_obs
  tMode :: u32
  jamRandom :: u32

section \<open>RF module detection (lines 145-166)\<close>

text \<open>
  The busy-wait \<open>while(millis() - start < 100)\<close> over the observed turns. It returns
  whether an event was heard, with the receiver calls made. \<open>None\<close>: the
  observations end while the loop is still waiting.
\<close>

fun listen :: "u32 \<Rightarrow> (u32 \<times> bool) list \<Rightarrow> (bool \<times> event list) option" where
  "listen start [] = None"
| "listen start ((t, av) # rest) =
     (if t - start < 100 then
        (if av then Some (True, [RxAvailable True, RxResetAvailable])
         else map_option (\<lambda>(r, es). (r, RxAvailable False # es)) (listen start rest))
      else Some (False, []))"

definition checkRFModule :: "probe_obs \<Rightarrow> sys \<Rightarrow> (bool \<times> sys) option" where
  "checkRFModule ob s =
     (case listen (probeStart ob) (probePolls ob) of
        None \<Rightarrow> None
      | Some (heard, es) \<Rightarrow>
          (if heard then Some (True, s\<lparr> effects := effects s @ es \<rparr>)
           else Some (txReadback ob = HIGH,
                  s\<lparr> effects := effects s @ es @
                     [PinModeOutput RF_TX_PIN, DigitalWrite RF_TX_PIN HIGH, Delay 10,
                      DigitalWrite RF_TX_PIN LOW] \<rparr>)))"

section \<open>Button handling (lines 172-268)\<close>

definition readButtons :: "gpio \<Rightarrow> sys \<Rightarrow> sys" where
  "readButtons g s = s\<lparr> btnState := (btnState s)\<lparr>
     up := (g BTN_UP = LOW), down := (g BTN_DOWN = LOW),
     select := (g BTN_SELECT = LOW), back' := (g BTN_BACK = LOW) \<rparr> \<rparr>"

definition buttonRisingEdge :: "bool \<Rightarrow> bool \<Rightarrow> bool" where
  "buttonRisingEdge current previous = (current \<and> \<not> previous)"

definition stampPress :: "u32 \<Rightarrow> sys \<Rightarrow> sys" where
  "stampPress now s = s\<lparr> btnState := (btnState s)\<lparr> lastPress := now \<rparr> \<rparr>"

text \<open>Lines 192-199.\<close>

definition upButton :: "u32 \<Rightarrow> sys \<Rightarrow> sys" where
  "upButton now s =
     (if buttonRisingEdge (up (btnState s)) (upLast (btnState s)) then
        stampPress now
          (if currentMode s = MENU then
             (let m = menuSelection s - 1;
                  m' = (if sint m < 0 then menuItems - 1 else m)
              in emit (SerialPrintln [Str ''Menu UP -> '', Dec (sint m')])
                   (s\<lparr> menuSelection := m' \<rparr>))
           else s)
      else s)"

text \<open>Lines 202-209.\<close>

definition downButton :: "u32 \<Rightarrow> sys \<Rightarrow> sys" where
  "downButton now s =
     (if buttonRisingEdge (down (btnState s)) (downLast (btnState s)) then
        stampPress now
          (if currentMode s = MENU then
             (let m = menuSelection s + 1;
                  m' = (if sint menuItems \<le> sint m then 0 else m)
              in emit (SerialPrintln [Str ''Menu DOWN -> '', Dec (sint m')])
                   (s\<lparr> menuSelection := m' \<rparr>))
           else s)
      else s)"

text \<open>The \<open>switch(menuSelection)\<close> of lines 217-230: no default case.\<close>

definition enterSelected :: "sys \<Rightarrow> sys" where
  "enterSelected s =
     (if menuSelection s = 0 then
        emit (SerialPrintln [Str ''-> READ MODE'']) (s\<lparr> currentMode := READ \<rparr>)
      else if menuSelection s = 1 then
        emit (SerialPrintln [Str ''-> EMULATE MODE'']) (s\<lparr> currentMode := EMULATE \<rparr>)
      else if menuSelection s = 2 then
        emit (SerialPrintln [Str ''-> JAM MODE'']) (s\<lparr> currentMode := JAM \<rparr>)
      else s)"

text \<open>Lines 212-252.\<close>

definition selectButton :: "u32 \<Rightarrow> sys \<Rightarrow> sys" where
  "selectButton now s =
     (if buttonRisingEdge (select (btnState s)) (selectLast (btnState s)) then
        (let s1 = emit (SerialPrintln [Str ''SELECT pressed in mode: '',
                          Dec (modeNumber (currentMode s))]) s
         in stampPress now
          (if currentMode s1 = MENU then
             (enterSelected s1)\<lparr> isTransmitting := False, isJamming := False,
                                  transmitCount := 0 \<rparr>
           else if currentMode s1 = EMULATE then
             (if valid (capturedSignal s1) then
                (let s2 = s1\<lparr> isTransmitting := \<not> isTransmitting s1,
                               transmitCount := 0, lastTransmit := 0 \<rparr>
                 in emit (SerialPrintln [Str ''Transmit: '',
                            Str (if isTransmitting s2 then ''ON'' else ''OFF'')]) s2)
              else emit (SerialPrintln [Str ''ERROR: No signal captured!'']) s1)
           else if currentMode s1 = JAM then
             (let s2 = s1\<lparr> isJamming := \<not> isJamming s1, lastJam := 0 \<rparr>
              in emit (SerialPrintln [Str ''Jamming: '',
                         Str (if isJamming s2 then ''ON'' else ''OFF'')]) s2)
           else s1))
      else s)"

text \<open>Lines 255-261.\<close>

definition backButton :: "u32 \<Rightarrow> sys \<Rightarrow> sys" where
  "backButton now s =
     (if buttonRisingEdge (back' (btnState s)) (backLast (btnState s)) then
        stampPress now
          ((emit (SerialPrintln [Str ''BACK -> MENU'']) s)
             \<lparr> currentMode := MENU, isTransmitting := False, isJamming := False \<rparr>)
      else s)"

text \<open>Lines 264-267.\<close>

definition updateLast :: "sys \<Rightarrow> sys" where
  "updateLast s = s\<lparr> btnState := (btnState s)\<lparr>
     upLast := up (btnState s), downLast := down (btnState s),
     selectLast := select (btnState s), backLast := back' (btnState s) \<rparr> \<rparr>"

text \<open>Lines 191-267: the four handlers in their order, then the update.\<close>

definition dispatchEdges :: "u32 \<Rightarrow> sys \<Rightarrow> sys" where
  "dispatchEdges now s =
     updateLast (backButton now (selectButton now (downButton now (upButton now s))))"

text \<open>
  \<open>handleButtons\<close> (lines 183-268): \<open>g\<close> is what the pins read, \<open>now\<close> the clock at
  line 186. The \<open>return\<close> of line 188 leaves before the four handlers and before
  the update of the previous states.
\<close>

definition handleButtons :: "gpio \<Rightarrow> u32 \<Rightarrow> sys \<Rightarrow> sys" where
  "handleButtons g now s =
     (let s0 = readButtons g s in
      if now - lastPress (btnState s0) < DEBOUNCE_DELAY then s0
      else dispatchEdges now s0)"

section \<open>RF operations (lines 274-328)\<close>

text \<open>\<open>handleRFReception\<close>: \<open>r\<close> is the receiver, \<open>t\<close> the clock at line 284.\<close>

definition handleRFReception :: "rx_obs \<Rightarrow> u32 \<Rightarrow> sys \<Rightarrow> sys" where
  "handleRFReception r t s =
     (let s0 = emit (RxAvailable (rxAvailable r)) s in
      if rxAvailable r then
        emit RxResetAvailable
          (if rxValue r \<noteq> 0 then
             (let s1 = s0\<lparr> capturedSignal := \<lparr> value' = rxValue r,
                           bitLength = rxBitlength r, protocol = rxProtocol r,
                           pulseLength = rxDelay r, valid = True, captureTime = t \<rparr> \<rparr>
              in s1\<lparr> effects := effects s1 @
                   [SerialPrintln [Str ''=== SIGNAL CAPTURED ===''],
                    SerialPrint [Str ''Value: ''],
                    SerialPrintln [Hex (value' (capturedSignal s1))],
                    SerialPrint [Str ''Bits: ''],
                    SerialPrintln [Dec (uint (bitLength (capturedSignal s1)))],
                    SerialPrint [Str ''Protocol: ''],
                    SerialPrintln [Dec (uint (protocol (capturedSignal s1)))],
                    SerialPrint [Str ''Pulse: ''],
                    SerialPrintln [Dec (uint (pulseLength (capturedSignal s1)))]] \<rparr>)
           else s0)
      else s0)"

text \<open>Lines 302-309: one replay of the stored signal.\<close>

definition sendCaptured :: "u32 \<Rightarrow> sys \<Rightarrow> sys" where
  "sendCaptured now s =
     (let s1 = s\<lparr> effects := effects s @
                  [TxSetProtocol (protocol (capturedSignal s)),
                   TxSetPulseLength (pulseLength (capturedSignal s)),
                   TxSend (value' (capturedSignal s)) (bitLength (capturedSignal s))] \<rparr>;
          s2 = s1\<lparr> transmitCount := transmitCount s1 + 1, lastTransmit := now \<rparr>
      in emit (SerialPrintln [Str ''TX #'', Dec (sint (transmitCount s2))]) s2)"

text \<open>\<open>transmitSignal\<close> (lines 297-312): \<open>now\<close> is the clock at line 298.\<close>

definition transmitSignal :: "u32 \<Rightarrow> sys \<Rightarrow> sys" where
  "transmitSignal now s =
     (if TRANSMIT_INTERVAL \<le> now - lastTransmit s then
        (if valid (capturedSignal s) then sendCaptured now s else s)
      else s)"

text \<open>Lines 319-326: one jamming burst; \<open>rnd\<close> is what \<open>random\<close> returns.\<close>

definition sendJam :: "u32 \<Rightarrow> u32 \<Rightarrow> sys \<Rightarrow> sys" where
  "sendJam now rnd s =
     (s\<lparr> effects := effects s @
           [TxSetProtocol (animFrame s mod 3 + 1), TxSend rnd 24] \<rparr>)
       \<lparr> lastJam := now \<rparr>"

text \<open>\<open>jamSignals\<close> (lines 314-328): \<open>now\<close> is the clock at line 315.\<close>

definition jamSignals :: "u32 \<Rightarrow> u32 \<Rightarrow> sys \<Rightarrow> sys" where
  "jamSignals now rnd s =
     (if JAM_INTERVAL \<le> now - lastJam s then sendJam now rnd s else s)"

section \<open>The frame of Emulate mode (lines 456-511)\<close>

text \<open>
  The display-driver calls of \<open>drawEmulateMode\<close>, in program order, as a function
  of the state it reads; the event \<open>DrawEmulateMode\<close> of the trace stands for
  them. The colour argument is \<open>SH110X_WHITE\<close> in every call that takes one and
  is left out; \<open>SCREEN_WIDTH\<close> is 128.
\<close>

datatype draw =
    ClearDisplay
  | SetTextSize nat
  | SetTextColor
  | SetCursor int int
  | Print piece
  | Println piece
  | DrawLine int int int int
  | FillCircle int int int
  | DrawCircle int int int
  | Display

text \<open>
  Lines 494-496, the body of the loop over \<open>i = 0, 1, 2, 3\<close>: the sum
  \<open>15 + i * 25 + (animFrame * 2) % 25\<close> is computed in unsigned 32-bit
  arithmetic (\<open>animFrame\<close> is an \<open>unsigned int\<close>) and stored in an \<open>int\<close>.
\<close>

definition txWave :: "sys \<Rightarrow> u32 \<Rightarrow> draw list" where
  "txWave s i =
     (let x = sint (15 + i * 25 + (animFrame s * 2) mod 25)
      in [FillCircle x 45 2, DrawCircle x 45 4])"

definition drawEmulateMode :: "sys \<Rightarrow> draw list" where
  "drawEmulateMode s =
     [ClearDisplay, SetTextSize 1, SetTextColor, SetCursor 20 2,
      Println (Str ''EMULATE MODE''), DrawLine 0 12 128 12] @
     (if \<not> valid (capturedSignal s) then
        [SetCursor 10 28, Println (Str ''No signal!''),
         SetCursor 5 40, Println (Str ''Capture in READ''),
         SetCursor 15 48, Println (Str ''mode first'')]
      else
        [SetCursor 5 18, Print (Str ''VAL: 0x''), Println (Hex (value' (capturedSignal s))),
         SetCursor 5 26, Print (Str ''BITS: ''),
         Print (Dec (uint (bitLength (capturedSignal s)))),
         SetCursor 5 34, Print (Str ''PROTO: ''),
         Print (Dec (uint (protocol (capturedSignal s))))] @
        (if isTransmitting s then
           concat (map (txWave s) [0, 1, 2, 3]) @
           [SetCursor 20 52, Print (Str ''TX #''), Print (Dec (sint (transmitCount s)))]
         else [SetCursor 15 45, Println (Str ''SELECT to TX'')])) @
     [SetCursor 5 57, Println (Str ''BACK=Menu''), Display]"

section \<open>The main loop (lines 615-676)\<close>

text \<open>Lines 618-625: the check itself, once it is due.\<close>

definition recheck :: "tick_in \<Rightarrow> sys \<Rightarrow> sys option" where
  "recheck i s =
     (case checkRFModule (probe i) s of
        None \<Rightarrow> None
      | Some (r, s1) \<Rightarrow>
          (let s2 = s1\<lparr> rfModuleConnected := r \<rparr>;
               s3 = (if rfModuleConnected s \<noteq> r then
                       emit (SerialPrintln [Str ''RF Status changed: '',
                               Str (if r then ''CONNECTED'' else ''DISCONNECTED'')]) s2
                     else s2)
           in Some (s3\<lparr> lastRFCheck := tChecked i \<rparr>)))"

text \<open>Lines 617-626: the periodic check of the RF module.\<close>

definition periodicCheck :: "tick_in \<Rightarrow> sys \<Rightarrow> sys option" where
  "periodicCheck i s =
     (if RF_CHECK_INTERVAL < tCheck i - lastRFCheck s then recheck i s else Some s)"

text \<open>Lines 629-632: the animation frame.\<close>

definition animUpdate :: "tick_in \<Rightarrow> sys \<Rightarrow> sys" where
  "animUpdate i s =
     (if ANIM_SPEED < tAnim i - lastAnimUpdate s then
        s\<lparr> animFrame := (animFrame s + 1) mod 1000, lastAnimUpdate := tAnimSet i \<rparr>
      else s)"

text \<open>Lines 638-673: the \<open>switch(currentMode)\<close>.\<close>

definition modeLogic :: "tick_in \<Rightarrow> sys \<Rightarrow> sys" where
  "modeLogic i s =
     (case currentMode s of
        MENU \<Rightarrow> emit DrawMenu s
      | READ \<Rightarrow>
          (if \<not> rfModuleConnected s then
             emit (DisplayWarning ''RF Module Error'' ''Check Connection'') s
           else emit DrawReadMode (handleRFReception (rx i) (tMode i) s))
      | EMULATE \<Rightarrow>
          (if \<not> rfModuleConnected s then
             emit (DisplayWarning ''RF Module Error'' ''Check Connection'') s
           else emit DrawEmulateMode
                  (if isTransmitting s then transmitSignal (tMode i) s else s))
      | JAM \<Rightarrow>
          (if \<not> rfModuleConnected s then
             emit (DisplayWarning ''RF Module Error'' ''Check Connection'') s
           else emit DrawJamMode
                  (if isJamming s then jamSignals (tMode i) (jamRandom i) s else s)))"

text \<open>
  The state when the pass reaches the \<open>switch\<close>: after the periodic check, the
  animation update and \<open>handleButtons\<close>.
\<close>

definition beforeSwitch :: "tick_in \<Rightarrow> sys \<Rightarrow> sys option" where
  "beforeSwitch i s =
     map_option (\<lambda>s1. handleButtons (pins i) (tButtons i) (animUpdate i s1))
       (periodicCheck i s)"

definition loop :: "tick_in \<Rightarrow> sys \<Rightarrow> sys option" where
  "loop i s = map_option (\<lambda>s1. emit (Delay 30) (modeLogic i s1)) (beforeSwitch i s)"

text \<open>Passes of \<open>loop()\<close> one after the other, one input per pass.\<close>

fun run :: "tick_in list \<Rightarrow> sys \<Rightarrow> sys option" where
  "run [] s = Some s"
| "run (i # rest) s = (case loop i s of None \<Rightarrow> None | Some s1 \<Rightarrow> run rest s1)"

section \<open>Setup (lines 556-609)\<close>

text \<open>
  \<open>None\<close>: \<open>setup()\<close> does not return, because the display failed to start (the
  \<open>while(1)\<close> of line 582) or the probe's observations ended too early.
\<close>

definition setup' :: "setup_in \<Rightarrow> sys \<Rightarrow> sys option" where
  "setup' i s =
     (let s1 = readButtons (setupPins i)
                 (s\<lparr> effects := effects s @
                    [SerialBegin 115200, Delay 100,
                     SerialPrintln [Str [CHR 0x0A, CHR 0x0A],
                                    Str ''=================================''],
                     SerialPrintln [Str ''RF Cloner - Starting...''],
                     SerialPrintln [Str ''Created by: Nihal MP''],
                     SerialPrintln [Str ''================================='',
                                    Str [CHR 0x0A]],
                     PinModeInputPullup BTN_UP, PinModeInputPullup BTN_DOWN,
                     PinModeInputPullup BTN_SELECT, PinModeInputPullup BTN_BACK,
                     SerialPrintln [Str ''Buttons: UP=12 DN=13 SEL=15 BACK=27'']] \<rparr>);
          s2 = emit (DisplayBegin (displayOk i)) (emit (Delay 250) (updateLast s1))
      in if \<not> displayOk i then None
         else
           (let s3 = s2\<lparr> effects := effects s2 @
                       [SerialPrintln [Str ''Display: OK (SH1106 128x64)''],
                        DisplayClear, DisplayFlush, BootAnimation,
                        RxEnableReceive RF_RX_PIN, TxEnableTransmit RF_TX_PIN,
                        SerialPrintln [Str ''RF RX: GPIO5 | RF TX: GPIO4''],
                        SerialPrint [Str ''Checking RF module... '']] \<rparr>
            in case checkRFModule (setupProbe i) s3 of
                 None \<Rightarrow> None
               | Some (r, s4) \<Rightarrow>
                   (let s5 = emit (SerialPrintln [Str (if r then ''CONNECTED'' else ''NOT FOUND'')])
                               (s4\<lparr> rfModuleConnected := r \<rparr>);
                        s6 = (if \<not> r then
                                s5\<lparr> effects := effects s5 @
                                   [SerialPrintln [Str ''WARNING: RF module not detected!''],
                                    SerialPrintln [Str ''Check connections and power.'']] \<rparr>
                              else s5)
                    in Some (emit (SerialPrintln [Str [CHR 0x0A], Str ''=== READY ==='',
                                                  Str [CHR 0x0A]])
                               (s6\<lparr> currentMode := MENU \<rparr>)))))"


section \<open>Notions used to state the properties\<close>

text \<open>
  The state without the button bookkeeping and without the trace: the mode, the menu
  selection, the link flag, the captured signal, the two toggles, the counters and
  the timers. Two states with the same \<open>domainState\<close> differ at most in
  \<open>btnState\<close> and in what was logged.
\<close>

definition domainState :: "sys \<Rightarrow> sys" where
  "domainState s = s\<lparr> btnState := btnState initial, effects := [] \<rparr>"

subsection \<open>Kinds of events, and what a step appends to the trace\<close>

text \<open>
  Serial lines; calls on the transmitter (\<open>setProtocol\<close>, \<open>setPulseLength\<close>,
  \<open>send\<close>); calls on the receiver (\<open>available\<close>, \<open>resetAvailable\<close>); the
  four frames of the modes.
\<close>

fun isSerial :: "event \<Rightarrow> bool" where
  "isSerial (SerialPrint _) = True"
| "isSerial (SerialPrintln _) = True"
| "isSerial _ = False"

fun isTransmit :: "event \<Rightarrow> bool" where
  "isTransmit (TxSetProtocol _) = True"
| "isTransmit (TxSetPulseLength _) = True"
| "isTransmit (TxSend _ _) = True"
| "isTransmit _ = False"

fun isReceive :: "event \<Rightarrow> bool" where
  "isReceive (RxAvailable _) = True"
| "isReceive RxResetAvailable = True"
| "isReceive _ = False"

fun isFrame :: "event \<Rightarrow> bool" where
  "isFrame DrawMenu = True"
| "isFrame DrawReadMode = True"
| "isFrame DrawEmulateMode = True"
| "isFrame DrawJamMode = True"
| "isFrame _ = False"

text \<open>
  The events a step from \<open>s\<close> to \<open>s'\<close> added, and the statement that the step
  only appended to the trace, and only events of a given kind.
\<close>

definition newEffects :: "sys \<Rightarrow> sys \<Rightarrow> event list" where
  "newEffects s s' = drop (length (effects s)) (effects s')"

definition appended :: "(event \<Rightarrow> bool) \<Rightarrow> sys \<Rightarrow> sys \<Rightarrow> bool" where
  "appended P s s' =
     (take (length (effects s)) (effects s') = effects s \<and> list_all P (newEffects s s'))"


subsection \<open>Replays over time\<close>

text \<open>
  Time is a natural number of milliseconds since boot; \<open>millis()\<close> returns it
  modulo \<open>2^32\<close>, which is \<open>of_nat\<close> into \<open>u32\<close>. \<open>replay Ts s\<close> calls
  \<open>transmitSignal\<close> at the times \<open>Ts\<close>, one after the other, as the loop does
  while it is replaying; \<open>sendTimes Ts s\<close> lists the times at which the call
  invoked \<open>send\<close> (the trace gained a \<open>TxSend\<close>).
\<close>

fun isSend :: "event \<Rightarrow> bool" where
  "isSend (TxSend _ _) = True"
| "isSend _ = False"

definition sendCount :: "sys \<Rightarrow> nat" where
  "sendCount s = length (filter isSend (effects s))"

fun replay :: "nat list \<Rightarrow> sys \<Rightarrow> sys" where
  "replay [] s = s"
| "replay (T # Ts) s = replay Ts (transmitSignal (of_nat T) s)"

fun sendTimes :: "nat list \<Rightarrow> sys \<Rightarrow> nat list" where
  "sendTimes [] s = []"
| "sendTimes (T # Ts) s =
     (if sendCount s < sendCount (transmitSignal (of_nat T) s) then [T] else []) @
     sendTimes Ts (transmitSignal (of_nat T) s)"

subsection \<open>Rising edges\<close>

text \<open>
  The rising edges of a state: a button whose sample is pressed and whose previous
  state is not, as the four tests of lines 192, 202, 212 and 255 compute them.
\<close>

definition upEdge :: "sys \<Rightarrow> bool" where
  "upEdge s = buttonRisingEdge (up (btnState s)) (upLast (btnState s))"

definition downEdge :: "sys \<Rightarrow> bool" where
  "downEdge s = buttonRisingEdge (down (btnState s)) (downLast (btnState s))"

definition selectEdge :: "sys \<Rightarrow> bool" where
  "selectEdge s = buttonRisingEdge (select (btnState s)) (selectLast (btnState s))"

definition backEdge :: "sys \<Rightarrow> bool" where
  "backEdge s = buttonRisingEdge (back' (btnState s)) (backLast (btnState s))"

subsection \<open>Successive calls of the button routine\<close>

text \<open>
  \<open>handleButtonsSeq cs s\<close> calls \<open>handleButtons\<close> once for each element of
  \<open>cs\<close>, in order, with the pin levels and the clock the element gives.
\<close>

fun handleButtonsSeq :: "(gpio \<times> u32) list \<Rightarrow> sys \<Rightarrow> sys" where
  "handleButtonsSeq [] s = s"
| "handleButtonsSeq (c # cs) s = handleButtonsSeq cs (handleButtons (fst c) (snd c) s)"

subsection \<open>Passes with the link down\<close>

text \<open>
  \<open>unhealthyRun ticks s\<close>: in the run of passes \<open>ticks\<close> from \<open>s\<close>, every
  pass reaches its \<open>switch\<close> with the link flag false and the mode Read, Emulate
  or Jam.
\<close>

fun unhealthyRun :: "tick_in list \<Rightarrow> sys \<Rightarrow> bool" where
  "unhealthyRun [] s = True"
| "unhealthyRun (i # rest) s =
     (case beforeSwitch i s of
        None \<Rightarrow> False
      | Some s1 \<Rightarrow>
          \<not> rfModuleConnected s1 \<and>
          (currentMode s1 = READ \<or> currentMode s1 = EMULATE \<or> currentMode s1 = JAM) \<and>
          (case loop i s of None \<Rightarrow> False | Some s2 \<Rightarrow> unhealthyRun rest s2))"

subsection \<open>Example inputs\<close>

text \<open>Pin levels with one button held (the buttons are active-low), or none.\<close>

definition pressUp :: gpio where
  "pressUp p = (if p = BTN_UP then LOW else HIGH)"

definition pressDown :: gpio where
  "pressDown p = (if p = BTN_DOWN then LOW else HIGH)"

definition pressSelect :: gpio where
  "pressSelect p = (if p = BTN_SELECT then LOW else HIGH)"

definition pressBack :: gpio where
  "pressBack p = (if p = BTN_BACK then LOW else HIGH)"

definition released :: gpio where
  "released p = HIGH"

text \<open>The menu after Down was pressed and accepted at clock 4000: selection 1.\<close>

definition afterDown :: sys where
  "afterDown = handleButtons pressDown 4000 initial"

text \<open>A signal as Read mode stores it: the capture of the end-to-end scenario.\<close>

definition sampleSignal :: RFSignal where
  "sampleSignal = \<lparr> value' = 0xABCD12, bitLength = 24, protocol = 1, pulseLength = 350,
     valid = True, captureTime = 3121 \<rparr>"

text \<open>Emulate mode, replaying that signal: two replays so far, the last at clock 4800.\<close>

definition transmitting :: sys where
  "transmitting = initial\<lparr> currentMode := EMULATE, menuSelection := 1,
     rfModuleConnected := True, capturedSignal := sampleSignal, isTransmitting := True,
     lastTransmit := 4800, transmitCount := 2 \<rparr>"

text \<open>Emulate mode with nothing captured, and Read mode, both with the link up.\<close>

definition emulateEmpty :: sys where
  "emulateEmpty = initial\<lparr> currentMode := EMULATE, menuSelection := 1,
     rfModuleConnected := True \<rparr>"

definition reading :: sys where
  "reading = initial\<lparr> currentMode := READ, rfModuleConnected := True \<rparr>"

text \<open>What the receiver holds: the capture of the end-to-end scenario, and noise.\<close>

definition sampleRx :: rx_obs where
  "sampleRx = \<lparr> rxAvailable = True, rxValue = 0xABCD12, rxBitlength = 24, rxProtocol = 1,
     rxDelay = 350 \<rparr>"

definition noiseRx :: rx_obs where
  "noiseRx = \<lparr> rxAvailable = True, rxValue = 0, rxBitlength = 24, rxProtocol = 1,
     rxDelay = 350 \<rparr>"

text \<open>
  A probe that hears nothing for 100 ms and then reads the TX pin back high (module
  present) or low (module absent).
\<close>

definition okProbe :: probe_obs where
  "okProbe = \<lparr> probeStart = 3010, probePolls = [(3010, False), (3110, False)],
     txReadback = HIGH \<rparr>"

definition deadProbe :: probe_obs where
  "deadProbe = \<lparr> probeStart = 3010, probePolls = [(3010, False), (3110, False)],
     txReadback = LOW \<rparr>"

text \<open>A boot with the display working and no button held.\<close>

definition bootIn :: setup_in where
  "bootIn = \<lparr> setupPins = released, displayOk = True, setupProbe = okProbe \<rparr>"

text \<open>
  A pass of the loop at clock 3010 with no button held and the sample signal waiting
  in the receiver, with the module present and with the module absent.
\<close>

definition captureTick :: tick_in where
  "captureTick = \<lparr> tCheck = 3010, probe = okProbe, tChecked = 3120, tAnim = 3120,
     tAnimSet = 3120, pins = released, tButtons = 3120, rx = sampleRx, tMode = 3121,
     jamRandom = 1 \<rparr>"

definition downTick :: tick_in where
  "downTick = captureTick\<lparr> probe := deadProbe \<rparr>"

text \<open>
  Read mode with the link down; the state in which the pass \<open>downTick\<close>, whose
  recheck is due, reaches the \<open>switch\<close> from there (the probe has run and
  failed); the state at the end of that pass; and the next pass, 40 ms later, with
  no recheck due.
\<close>

definition readingDown :: sys where
  "readingDown = initial\<lparr> currentMode := READ \<rparr>"

definition downSwitch :: sys where
  "downSwitch = readingDown\<lparr> lastRFCheck := 3120, animFrame := 1, lastAnimUpdate := 3120,
     effects := [RxAvailable False, PinModeOutput RF_TX_PIN, DigitalWrite RF_TX_PIN HIGH,
       Delay 10, DigitalWrite RF_TX_PIN LOW] \<rparr>"

definition downAfter :: sys where
  "downAfter = downSwitch\<lparr> effects := effects downSwitch @
     [DisplayWarning ''RF Module Error'' ''Check Connection'', Delay 30] \<rparr>"

definition nextTick :: tick_in where
  "nextTick = downTick\<lparr> tCheck := 3160, tAnim := 3160, tAnimSet := 3160, tButtons := 3160,
     tMode := 3161 \<rparr>"

text \<open>
  A state whose five timers were all stamped 100 ms before the clock wraps, and a pass
  whose clock readings are taken 450 ms after the wrap.
\<close>

definition wrapState :: sys where
  "wrapState = transmitting\<lparr> lastRFCheck := 4294967196,
     btnState := (btnState transmitting)\<lparr> lastPress := 4294967196 \<rparr>,
     lastTransmit := 4294967196, lastJam := 4294967196, lastAnimUpdate := 4294967196 \<rparr>"

definition wrapTick :: tick_in where
  "wrapTick = captureTick\<lparr> tCheck := 450, tAnim := 450, tAnimSet := 451 \<rparr>"


section \<open>Properties\<close>

subsection \<open>What each button handler writes\<close>

text \<open>
  Field by field: the fields a handler leaves alone, then the fields it writes. The
  handlers of the four buttons touch \<open>btnState\<close> only in \<open>lastPress\<close>, so the
  rising edges are the same for all four.
\<close>

lemma readButtons_same:
  "currentMode (readButtons g s) = currentMode s"
  "menuSelection (readButtons g s) = menuSelection s"
  "rfModuleConnected (readButtons g s) = rfModuleConnected s"
  "lastRFCheck (readButtons g s) = lastRFCheck s"
  "capturedSignal (readButtons g s) = capturedSignal s"
  "isTransmitting (readButtons g s) = isTransmitting s"
  "isJamming (readButtons g s) = isJamming s"
  "lastTransmit (readButtons g s) = lastTransmit s"
  "lastJam (readButtons g s) = lastJam s"
  "transmitCount (readButtons g s) = transmitCount s"
  "animFrame (readButtons g s) = animFrame s"
  "lastAnimUpdate (readButtons g s) = lastAnimUpdate s"
  "effects (readButtons g s) = effects s"
  "upLast (btnState (readButtons g s)) = upLast (btnState s)"
  "downLast (btnState (readButtons g s)) = downLast (btnState s)"
  "selectLast (btnState (readButtons g s)) = selectLast (btnState s)"
  "backLast (btnState (readButtons g s)) = backLast (btnState s)"
  "lastPress (btnState (readButtons g s)) = lastPress (btnState s)"
  by (simp_all add: readButtons_def)

lemma readButtons_sample:
  "up (btnState (readButtons g s)) = (g BTN_UP = LOW)"
  "down (btnState (readButtons g s)) = (g BTN_DOWN = LOW)"
  "select (btnState (readButtons g s)) = (g BTN_SELECT = LOW)"
  "back' (btnState (readButtons g s)) = (g BTN_BACK = LOW)"
  by (simp_all add: readButtons_def)

lemma readButtons_edges:
  "upEdge (readButtons g s) = (g BTN_UP = LOW \<and> \<not> upLast (btnState s))"
  "downEdge (readButtons g s) = (g BTN_DOWN = LOW \<and> \<not> downLast (btnState s))"
  "selectEdge (readButtons g s) = (g BTN_SELECT = LOW \<and> \<not> selectLast (btnState s))"
  "backEdge (readButtons g s) = (g BTN_BACK = LOW \<and> \<not> backLast (btnState s))"
  by (simp_all add: readButtons_def upEdge_def downEdge_def selectEdge_def backEdge_def buttonRisingEdge_def)

lemma updateLast_same:
  "currentMode (updateLast s) = currentMode s"
  "menuSelection (updateLast s) = menuSelection s"
  "rfModuleConnected (updateLast s) = rfModuleConnected s"
  "lastRFCheck (updateLast s) = lastRFCheck s"
  "capturedSignal (updateLast s) = capturedSignal s"
  "isTransmitting (updateLast s) = isTransmitting s"
  "isJamming (updateLast s) = isJamming s"
  "lastTransmit (updateLast s) = lastTransmit s"
  "lastJam (updateLast s) = lastJam s"
  "transmitCount (updateLast s) = transmitCount s"
  "animFrame (updateLast s) = animFrame s"
  "lastAnimUpdate (updateLast s) = lastAnimUpdate s"
  "effects (updateLast s) = effects s"
  "up (btnState (updateLast s)) = up (btnState s)"
  "down (btnState (updateLast s)) = down (btnState s)"
  "select (btnState (updateLast s)) = select (btnState s)"
  "back' (btnState (updateLast s)) = back' (btnState s)"
  "lastPress (btnState (updateLast s)) = lastPress (btnState s)"
  by (simp_all add: updateLast_def)

lemma updateLast_snapshot:
  "upLast (btnState (updateLast s)) = up (btnState s)"
  "downLast (btnState (updateLast s)) = down (btnState s)"
  "selectLast (btnState (updateLast s)) = select (btnState s)"
  "backLast (btnState (updateLast s)) = back' (btnState s)"
  by (simp_all add: updateLast_def)

lemma upButton_same:
  "currentMode (upButton now s) = currentMode s"
  "rfModuleConnected (upButton now s) = rfModuleConnected s"
  "lastRFCheck (upButton now s) = lastRFCheck s"
  "capturedSignal (upButton now s) = capturedSignal s"
  "isTransmitting (upButton now s) = isTransmitting s"
  "isJamming (upButton now s) = isJamming s"
  "lastTransmit (upButton now s) = lastTransmit s"
  "lastJam (upButton now s) = lastJam s"
  "transmitCount (upButton now s) = transmitCount s"
  "animFrame (upButton now s) = animFrame s"
  "lastAnimUpdate (upButton now s) = lastAnimUpdate s"
  "up (btnState (upButton now s)) = up (btnState s)"
  "down (btnState (upButton now s)) = down (btnState s)"
  "select (btnState (upButton now s)) = select (btnState s)"
  "back' (btnState (upButton now s)) = back' (btnState s)"
  "upLast (btnState (upButton now s)) = upLast (btnState s)"
  "downLast (btnState (upButton now s)) = downLast (btnState s)"
  "selectLast (btnState (upButton now s)) = selectLast (btnState s)"
  "backLast (btnState (upButton now s)) = backLast (btnState s)"
  "upEdge (upButton now s) = upEdge s"
  "downEdge (upButton now s) = downEdge s"
  "selectEdge (upButton now s) = selectEdge s"
  "backEdge (upButton now s) = backEdge s"
  by (simp_all add: upButton_def stampPress_def emit_def Let_def upEdge_def downEdge_def selectEdge_def backEdge_def buttonRisingEdge_def)

lemma upButton_changed:
  "lastPress (btnState (upButton now s)) = (if upEdge s then now else lastPress (btnState s))"
  "menuSelection (upButton now s) =
     (if upEdge s \<and> currentMode s = MENU then
        (if sint (menuSelection s - 1) < 0 then menuItems - 1 else menuSelection s - 1)
      else menuSelection s)"
  "effects (upButton now s) =
     (if upEdge s \<and> currentMode s = MENU then
        effects s @ [SerialPrintln [Str ''Menu UP -> '',
           Dec (sint (if sint (menuSelection s - 1) < 0 then menuItems - 1
                      else menuSelection s - 1))]]
      else effects s)"
  by (simp_all add: upButton_def stampPress_def emit_def Let_def upEdge_def downEdge_def selectEdge_def backEdge_def buttonRisingEdge_def)

lemma downButton_same:
  "currentMode (downButton now s) = currentMode s"
  "rfModuleConnected (downButton now s) = rfModuleConnected s"
  "lastRFCheck (downButton now s) = lastRFCheck s"
  "capturedSignal (downButton now s) = capturedSignal s"
  "isTransmitting (downButton now s) = isTransmitting s"
  "isJamming (downButton now s) = isJamming s"
  "lastTransmit (downButton now s) = lastTransmit s"
  "lastJam (downButton now s) = lastJam s"
  "transmitCount (downButton now s) = transmitCount s"
  "animFrame (downButton now s) = animFrame s"
  "lastAnimUpdate (downButton now s) = lastAnimUpdate s"
  "up (btnState (downButton now s)) = up (btnState s)"
  "down (btnState (downButton now s)) = down (btnState s)"
  "select (btnState (downButton now s)) = select (btnState s)"
  "back' (btnState (downButton now s)) = back' (btnState s)"
  "upLast (btnState (downButton now s)) = upLast (btnState s)"
  "downLast (btnState (downButton now s)) = downLast (btnState s)"
  "selectLast (btnState (downButton now s)) = selectLast (btnState s)"
  "backLast (btnState (downButton now s)) = backLast (btnState s)"
  "upEdge (downButton now s) = upEdge s"
  "downEdge (downButton now s) = downEdge s"
  "selectEdge (downButton now s) = selectEdge s"
  "backEdge (downButton now s) = backEdge s"
  by (simp_all add: downButton_def stampPress_def emit_def Let_def upEdge_def downEdge_def selectEdge_def backEdge_def buttonRisingEdge_def)

lemma downButton_changed:
  "lastPress (btnState (downButton now s)) = (if downEdge s then now else lastPress (btnState s))"
  "menuSelection (downButton now s) =
     (if downEdge s \<and> currentMode s = MENU then
        (if sint menuItems \<le> sint (menuSelection s + 1) then 0 else menuSelection s + 1)
      else menuSelection s)"
  "effects (downButton now s) =
     (if downEdge s \<and> currentMode s = MENU then
        effects s @ [SerialPrintln [Str ''Menu DOWN -> '',
           Dec (sint (if sint menuItems \<le> sint (menuSelection s + 1) then 0
                      else menuSelection s + 1))]]
      else effects s)"
  by (simp_all add: downButton_def stampPress_def emit_def Let_def upEdge_def downEdge_def selectEdge_def backEdge_def buttonRisingEdge_def)

lemma backButton_same:
  "menuSelection (backButton now s) = menuSelection s"
  "rfModuleConnected (backButton now s) = rfModuleConnected s"
  "lastRFCheck (backButton now s) = lastRFCheck s"
  "capturedSignal (backButton now s) = capturedSignal s"
  "lastTransmit (backButton now s) = lastTransmit s"
  "lastJam (backButton now s) = lastJam s"
  "transmitCount (backButton now s) = transmitCount s"
  "animFrame (backButton now s) = animFrame s"
  "lastAnimUpdate (backButton now s) = lastAnimUpdate s"
  "up (btnState (backButton now s)) = up (btnState s)"
  "down (btnState (backButton now s)) = down (btnState s)"
  "select (btnState (backButton now s)) = select (btnState s)"
  "back' (btnState (backButton now s)) = back' (btnState s)"
  "upLast (btnState (backButton now s)) = upLast (btnState s)"
  "downLast (btnState (backButton now s)) = downLast (btnState s)"
  "selectLast (btnState (backButton now s)) = selectLast (btnState s)"
  "backLast (btnState (backButton now s)) = backLast (btnState s)"
  "upEdge (backButton now s) = upEdge s"
  "downEdge (backButton now s) = downEdge s"
  "selectEdge (backButton now s) = selectEdge s"
  "backEdge (backButton now s) = backEdge s"
  by (simp_all add: backButton_def stampPress_def emit_def upEdge_def downEdge_def selectEdge_def backEdge_def buttonRisingEdge_def)

lemma backButton_changed:
  "lastPress (btnState (backButton now s)) = (if backEdge s then now else lastPress (btnState s))"
  "currentMode (backButton now s) = (if backEdge s then MENU else currentMode s)"
  "isTransmitting (backButton now s) = (if backEdge s then False else isTransmitting s)"
  "isJamming (backButton now s) = (if backEdge s then False else isJamming s)"
  "effects (backButton now s) =
     (if backEdge s then effects s @ [SerialPrintln [Str ''BACK -> MENU'']] else effects s)"
  by (simp_all add: backButton_def stampPress_def emit_def upEdge_def downEdge_def selectEdge_def backEdge_def buttonRisingEdge_def)

lemma selectButton_same:
  "menuSelection (selectButton now s) = menuSelection s"
  "rfModuleConnected (selectButton now s) = rfModuleConnected s"
  "lastRFCheck (selectButton now s) = lastRFCheck s"
  "capturedSignal (selectButton now s) = capturedSignal s"
  "animFrame (selectButton now s) = animFrame s"
  "lastAnimUpdate (selectButton now s) = lastAnimUpdate s"
  "up (btnState (selectButton now s)) = up (btnState s)"
  "down (btnState (selectButton now s)) = down (btnState s)"
  "select (btnState (selectButton now s)) = select (btnState s)"
  "back' (btnState (selectButton now s)) = back' (btnState s)"
  "upLast (btnState (selectButton now s)) = upLast (btnState s)"
  "downLast (btnState (selectButton now s)) = downLast (btnState s)"
  "selectLast (btnState (selectButton now s)) = selectLast (btnState s)"
  "backLast (btnState (selectButton now s)) = backLast (btnState s)"
  "upEdge (selectButton now s) = upEdge s"
  "downEdge (selectButton now s) = downEdge s"
  "selectEdge (selectButton now s) = selectEdge s"
  "backEdge (selectButton now s) = backEdge s"
  by (simp_all add: selectButton_def stampPress_def emit_def enterSelected_def Let_def upEdge_def downEdge_def selectEdge_def backEdge_def buttonRisingEdge_def)

lemma selectButton_changed:
  "lastPress (btnState (selectButton now s)) =
     (if selectEdge s then now else lastPress (btnState s))"
  "currentMode (selectButton now s) =
     (if selectEdge s \<and> currentMode s = MENU then
        (if menuSelection s = 0 then READ else if menuSelection s = 1 then EMULATE
         else if menuSelection s = 2 then JAM else MENU)
      else currentMode s)"
  "isTransmitting (selectButton now s) =
     (if selectEdge s then
        (if currentMode s = MENU then False
         else if currentMode s = EMULATE \<and> valid (capturedSignal s) then \<not> isTransmitting s
         else isTransmitting s)
      else isTransmitting s)"
  "isJamming (selectButton now s) =
     (if selectEdge s then
        (if currentMode s = MENU then False
         else if currentMode s = JAM then \<not> isJamming s
         else isJamming s)
      else isJamming s)"
  "transmitCount (selectButton now s) =
     (if selectEdge s \<and>
         (currentMode s = MENU \<or> currentMode s = EMULATE \<and> valid (capturedSignal s))
      then 0 else transmitCount s)"
  "lastTransmit (selectButton now s) =
     (if selectEdge s \<and> currentMode s = EMULATE \<and> valid (capturedSignal s)
      then 0 else lastTransmit s)"
  "lastJam (selectButton now s) =
     (if selectEdge s \<and> currentMode s = JAM then 0 else lastJam s)"
  by (simp_all add: selectButton_def stampPress_def emit_def enterSelected_def Let_def upEdge_def downEdge_def selectEdge_def backEdge_def buttonRisingEdge_def)

text \<open>What Select logs: the line naming the mode, then the line of the branch taken.\<close>

lemma selectButton_effects:
  "effects (selectButton now s) =
     (if selectEdge s then
        effects s @ SerialPrintln [Str ''SELECT pressed in mode: '', Dec (modeNumber (currentMode s))] #
          (if currentMode s = MENU then
             (if menuSelection s = 0 then [SerialPrintln [Str ''-> READ MODE'']]
              else if menuSelection s = 1 then [SerialPrintln [Str ''-> EMULATE MODE'']]
              else if menuSelection s = 2 then [SerialPrintln [Str ''-> JAM MODE'']]
              else [])
           else if currentMode s = EMULATE then
             (if valid (capturedSignal s) then
                [SerialPrintln [Str ''Transmit: '',
                   Str (if isTransmitting s then ''OFF'' else ''ON'')]]
              else [SerialPrintln [Str ''ERROR: No signal captured!'']])
           else if currentMode s = JAM then
             [SerialPrintln [Str ''Jamming: '', Str (if isJamming s then ''OFF'' else ''ON'')]]
           else [])
      else effects s)"
  by (simp add: selectButton_def stampPress_def emit_def enterSelected_def Let_def upEdge_def downEdge_def selectEdge_def backEdge_def buttonRisingEdge_def)

lemmas frame_simps = readButtons_same readButtons_sample
  updateLast_same updateLast_snapshot
  upButton_same downButton_same backButton_same selectButton_same

lemmas handler_simps = frame_simps upButton_changed downButton_changed backButton_changed
  selectButton_changed

subsection \<open>The four handlers in sequence, and the debounce guard\<close>

lemma hb_in_window:
  "now - lastPress (btnState s) < DEBOUNCE_DELAY \<Longrightarrow> handleButtons g now s = readButtons g s"
  by (simp add: handleButtons_def readButtons_def)

lemma hb_outside:
  "\<not> now - lastPress (btnState s) < DEBOUNCE_DELAY \<Longrightarrow>
   handleButtons g now s = dispatchEdges now (readButtons g s)"
  by (simp add: handleButtons_def readButtons_def)

lemma dispatch_snapshot:
  "upLast (btnState (dispatchEdges now s)) = up (btnState s)"
  "downLast (btnState (dispatchEdges now s)) = down (btnState s)"
  "selectLast (btnState (dispatchEdges now s)) = select (btnState s)"
  "backLast (btnState (dispatchEdges now s)) = back' (btnState s)"
  "up (btnState (dispatchEdges now s)) = up (btnState s)"
  "down (btnState (dispatchEdges now s)) = down (btnState s)"
  "select (btnState (dispatchEdges now s)) = select (btnState s)"
  "back' (btnState (dispatchEdges now s)) = back' (btnState s)"
  by (simp_all add: dispatchEdges_def handler_simps)

lemma dispatch_lastPress:
  "lastPress (btnState (dispatchEdges now s)) =
     (if upEdge s \<or> downEdge s \<or> selectEdge s \<or> backEdge s then now
      else lastPress (btnState s))"
  by (simp add: dispatchEdges_def handler_simps)

lemma dispatch_same:
  "rfModuleConnected (dispatchEdges now s) = rfModuleConnected s"
  "lastRFCheck (dispatchEdges now s) = lastRFCheck s"
  "capturedSignal (dispatchEdges now s) = capturedSignal s"
  "animFrame (dispatchEdges now s) = animFrame s"
  "lastAnimUpdate (dispatchEdges now s) = lastAnimUpdate s"
  by (simp_all add: dispatchEdges_def handler_simps)

lemma dispatch_menuSelection:
  "menuSelection (dispatchEdges now s) = menuSelection (downButton now (upButton now s))"
  by (simp add: dispatchEdges_def handler_simps)

lemma dispatch_modes:
  "currentMode (dispatchEdges now s) =
     (if backEdge s then MENU
      else currentMode (selectButton now (downButton now (upButton now s))))"
  "isTransmitting (dispatchEdges now s) =
     (if backEdge s then False
      else isTransmitting (selectButton now (downButton now (upButton now s))))"
  "isJamming (dispatchEdges now s) =
     (if backEdge s then False
      else isJamming (selectButton now (downButton now (upButton now s))))"
  "transmitCount (dispatchEdges now s) =
     transmitCount (selectButton now (downButton now (upButton now s)))"
  "lastTransmit (dispatchEdges now s) =
     lastTransmit (selectButton now (downButton now (upButton now s)))"
  "lastJam (dispatchEdges now s) =
     lastJam (selectButton now (downButton now (upButton now s)))"
  by (simp_all add: dispatchEdges_def handler_simps)

lemma dispatch_effects:
  "effects (dispatchEdges now s) =
     effects (backButton now (selectButton now (downButton now (upButton now s))))"
  by (simp add: dispatchEdges_def frame_simps)

lemmas dispatch_simps = dispatch_snapshot dispatch_lastPress dispatch_same dispatch_modes
  dispatch_menuSelection

text \<open>Two states that agree on the twelve domain fields have the same \<open>domainState\<close>.\<close>

lemma domainState_eqI:
  "currentMode a = currentMode b \<Longrightarrow> menuSelection a = menuSelection b \<Longrightarrow>
   rfModuleConnected a = rfModuleConnected b \<Longrightarrow> lastRFCheck a = lastRFCheck b \<Longrightarrow>
   capturedSignal a = capturedSignal b \<Longrightarrow> isTransmitting a = isTransmitting b \<Longrightarrow>
   isJamming a = isJamming b \<Longrightarrow> lastTransmit a = lastTransmit b \<Longrightarrow>
   lastJam a = lastJam b \<Longrightarrow> transmitCount a = transmitCount b \<Longrightarrow>
   animFrame a = animFrame b \<Longrightarrow> lastAnimUpdate a = lastAnimUpdate b \<Longrightarrow>
   domainState a = domainState b"
  unfolding domainState_def by (rule sys.equality) simp_all

subsection \<open>Calls inside the debounce window\<close>

text \<open>
  Sampling twice is sampling once; a call inside the window is forgotten by the next
  call; a run of calls inside the window leaves the last samples and nothing else; a
  call outside the window that sees no rising edge only refreshes the snapshot.
\<close>

lemma readButtons_twice: "readButtons g2 (readButtons g1 s) = readButtons g2 s"
  by (simp add: readButtons_def)

lemma hb_after_sample: "handleButtons g2 t2 (readButtons g1 s) = handleButtons g2 t2 s"
  by (simp add: handleButtons_def readButtons_twice)

lemma seq_in_window:
  "\<forall>c\<in>set cs. snd c - lastPress (btnState s) < DEBOUNCE_DELAY \<Longrightarrow>
   handleButtonsSeq cs s = (if cs = [] then s else readButtons (fst (last cs)) s)"
proof (induction cs arbitrary: s)
  case Nil
  show ?case by simp
next
  case (Cons c cs)
  have 1: "handleButtons (fst c) (snd c) s = readButtons (fst c) s"
    using Cons.prems by (simp add: hb_in_window)
  have "\<forall>c'\<in>set cs. snd c' - lastPress (btnState (readButtons (fst c) s)) < DEBOUNCE_DELAY"
    using Cons.prems by (simp add: readButtons_same)
  from Cons.IH [OF this] show ?case by (simp add: 1 readButtons_twice)
qed

lemma hb_after_window:
  "\<forall>c\<in>set cs. snd c - lastPress (btnState s) < DEBOUNCE_DELAY \<Longrightarrow>
   handleButtons g2 t2 (handleButtonsSeq cs s) = handleButtons g2 t2 s"
  by (simp add: seq_in_window hb_after_sample)

lemma dispatch_no_edge:
  assumes "\<not> upEdge s" "\<not> downEdge s" "\<not> selectEdge s" "\<not> backEdge s"
  shows "domainState (dispatchEdges now s) = domainState s"
    and "effects (dispatchEdges now s) = effects s"
    and "lastPress (btnState (dispatchEdges now s)) = lastPress (btnState s)"
proof -
  show "domainState (dispatchEdges now s) = domainState s"
    using assms by (intro domainState_eqI) (simp_all add: dispatch_simps handler_simps)
  show "effects (dispatchEdges now s) = effects s"
    using assms by (simp add: dispatch_effects handler_simps selectButton_effects)
  show "lastPress (btnState (dispatchEdges now s)) = lastPress (btnState s)"
    using assms by (simp add: dispatch_lastPress)
qed

text \<open>A signed value in the range \<open>[0, 3)\<close> is one of the three words.\<close>

lemma sint_range3:
  fixes m :: int32
  assumes "0 \<le> sint m" "sint m < 3"
  shows "m = 0 \<or> m = 1 \<or> m = 2"
proof -
  have m: "m = word_of_int (sint m)" by simp
  from assms have "sint m = 0 \<or> sint m = 1 \<or> sint m = 2" by arith
  then show ?thesis
  proof (elim disjE)
    assume "sint m = 0"
    with m show ?thesis by simp
  next
    assume "sint m = 1"
    with m show ?thesis by simp
  next
    assume "sint m = 2"
    with m show ?thesis by simp
  qed
qed

text \<open>Up and Down on the menu selection.\<close>

lemma upDown_wrap:
  "upEdge s \<Longrightarrow> currentMode s = MENU \<Longrightarrow> menuSelection s = 0 \<Longrightarrow>
     menuSelection (upButton now s) = 2"
  "downEdge s \<Longrightarrow> currentMode s = MENU \<Longrightarrow> menuSelection s = 2 \<Longrightarrow>
     menuSelection (downButton now s) = 0"
  by (simp_all add: upButton_changed downButton_changed menuItems_def)

lemma upDown_range:
  assumes "0 \<le> sint (menuSelection s) \<and> sint (menuSelection s) < 3"
  shows "0 \<le> sint (menuSelection (upButton now s)) \<and> sint (menuSelection (upButton now s)) < 3"
    and "0 \<le> sint (menuSelection (downButton now s)) \<and> sint (menuSelection (downButton now s)) < 3"
proof -
  from assms have m: "menuSelection s = 0 \<or> menuSelection s = 1 \<or> menuSelection s = 2"
    by (simp add: sint_range3)
  then have "menuSelection (upButton now s) = 0 \<or> menuSelection (upButton now s) = 1
      \<or> menuSelection (upButton now s) = 2"
    by (auto simp add: upButton_changed menuItems_def)
  then show "0 \<le> sint (menuSelection (upButton now s)) \<and> sint (menuSelection (upButton now s)) < 3"
    by auto
  from m have "menuSelection (downButton now s) = 0 \<or> menuSelection (downButton now s) = 1
      \<or> menuSelection (downButton now s) = 2"
    by (auto simp add: downButton_changed menuItems_def)
  then show "0 \<le> sint (menuSelection (downButton now s)) \<and> sint (menuSelection (downButton now s)) < 3"
    by auto
qed

subsection \<open>The example inputs, evaluated\<close>

lemmas pin_defs = BTN_UP_def BTN_DOWN_def BTN_SELECT_def BTN_BACK_def
  pressUp_def pressDown_def pressSelect_def pressBack_def released_def

lemma initial_fields:
  "currentMode initial = MENU" "menuSelection initial = 0"
  "lastPress (btnState initial) = 0"
  "upLast (btnState initial) = False" "downLast (btnState initial) = False"
  "selectLast (btnState initial) = False" "backLast (btnState initial) = False"
  "isTransmitting initial = False" "isJamming initial = False"
  "transmitCount initial = 0" "valid (capturedSignal initial) = False"
  "effects initial = []" "rfModuleConnected initial = False"
  by (simp_all add: initial_def)

lemma afterDown_fields:
  "menuSelection afterDown = 1" "lastPress (btnState afterDown) = 4000"
  "upLast (btnState afterDown) = False" "downLast (btnState afterDown) = True"
  "selectLast (btnState afterDown) = False" "backLast (btnState afterDown) = False"
  "currentMode afterDown = MENU"
  by (simp_all add: afterDown_def hb_outside initial_fields dispatch_simps handler_simps
      readButtons_edges pin_defs menuItems_def)


subsection \<open>The trace only grows\<close>

lemma appendedI:
  "effects s' = effects s @ es \<Longrightarrow> list_all P es \<Longrightarrow> appended P s s'"
  by (simp add: appended_def newEffects_def)

lemma appendedD:
  "appended P s s' \<Longrightarrow> effects s' = effects s @ newEffects s s' \<and> list_all P (newEffects s s')"
  unfolding appended_def newEffects_def
  by (metis append_take_drop_id)

lemma appended_refl: "appended P s s"
  by (simp add: appended_def newEffects_def)

lemma appended_trans:
  assumes "appended P a b" "appended P b c"
  shows "appended P a c"
proof -
  from assms have "effects c = effects a @ (newEffects a b @ newEffects b c)"
    and "list_all P (newEffects a b @ newEffects b c)"
    by (auto dest!: appendedD)
  then show ?thesis by (rule appendedI)
qed

lemma appended_mono:
  assumes "appended P a b" "\<And>e. P e \<Longrightarrow> Q e"
  shows "appended Q a b"
proof -
  from assms(1) have e: "effects b = effects a @ newEffects a b" and "list_all P (newEffects a b)"
    by (auto dest!: appendedD)
  then have "list_all Q (newEffects a b)" using assms(2) by (auto simp: list_all_iff)
  with e show ?thesis by (rule appendedI)
qed

text \<open>The probe: only the trace changes, and it gains receiver and pin events.\<close>

lemma listen_events:
  "listen start polls = Some (h, es) \<Longrightarrow> list_all isReceive es"
proof (induction polls arbitrary: es)
  case Nil
  then show ?case by simp
next
  case (Cons p polls)
  obtain t av where p: "p = (t, av)" by (cases p)
  show ?case
  proof (cases "t - start < 100 \<and> \<not> av")
    case True
    with Cons.prems p obtain es' where "listen start polls = Some (h, es')"
      and "es = RxAvailable False # es'" by (auto split: prod.splits)
    with Cons.IH show ?thesis by simp
  next
    case False
    with Cons.prems p show ?thesis by (auto split: if_splits)
  qed
qed

lemma checkRFModule_result:
  assumes "checkRFModule ob s = Some (r, s')"
  shows "\<exists>es. s' = s\<lparr> effects := effects s @ es \<rparr> \<and>
    list_all (\<lambda>e. \<not> isTransmit e \<and> \<not> isFrame e \<and> \<not> isSerial e) es"
proof -
  from assms obtain h es0 where l: "listen (probeStart ob) (probePolls ob) = Some (h, es0)"
    by (auto simp add: checkRFModule_def split: option.splits)
  then have "list_all isReceive es0" by (rule listen_events)
  then have q: "list_all (\<lambda>e. \<not> isTransmit e \<and> \<not> isFrame e \<and> \<not> isSerial e) es0"
    by (induction es0) (auto elim: isReceive.elims)
  show ?thesis
  proof (cases h)
    case True
    with assms l have "s' = s\<lparr> effects := effects s @ es0 \<rparr>"
      by (simp add: checkRFModule_def)
    with q show ?thesis by blast
  next
    case False
    with assms l have "s' = s\<lparr> effects := effects s @ (es0 @
        [PinModeOutput RF_TX_PIN, DigitalWrite RF_TX_PIN HIGH, Delay 10,
         DigitalWrite RF_TX_PIN LOW]) \<rparr>"
      by (simp add: checkRFModule_def)
    moreover have "list_all (\<lambda>e. \<not> isTransmit e \<and> \<not> isFrame e \<and> \<not> isSerial e) (es0 @
        [PinModeOutput RF_TX_PIN, DigitalWrite RF_TX_PIN HIGH, Delay 10,
         DigitalWrite RF_TX_PIN LOW])" using q by simp
    ultimately show ?thesis by blast
  qed
qed

subsection \<open>The stages of a pass of the loop\<close>

lemma recheck_result:
  assumes "recheck i s = Some s'"
  shows "\<exists>r es. s' = s\<lparr> rfModuleConnected := r, lastRFCheck := tChecked i,
      effects := effects s @ es \<rparr> \<and>
    list_all (\<lambda>e. \<not> isTransmit e \<and> \<not> isFrame e) es"
proof -
  from assms obtain r s1 where c: "checkRFModule (probe i) s = Some (r, s1)"
    by (auto simp add: recheck_def split: option.splits)
  then obtain es where s1: "s1 = s\<lparr> effects := effects s @ es \<rparr>"
    and q: "list_all (\<lambda>e. \<not> isTransmit e \<and> \<not> isFrame e \<and> \<not> isSerial e) es"
    by (auto dest: checkRFModule_result)
  from q have q': "list_all (\<lambda>e. \<not> isTransmit e \<and> \<not> isFrame e) es"
    by (auto simp: list_all_iff)
  show ?thesis
  proof (cases "rfModuleConnected s \<noteq> r")
    case True
    with assms c s1 have "s' = s\<lparr> rfModuleConnected := r, lastRFCheck := tChecked i,
        effects := effects s @ (es @ [SerialPrintln [Str ''RF Status changed: '',
          Str (if r then ''CONNECTED'' else ''DISCONNECTED'')]]) \<rparr>"
      by (auto simp add: recheck_def emit_def Let_def)
    moreover have "list_all (\<lambda>e. \<not> isTransmit e \<and> \<not> isFrame e)
        (es @ [SerialPrintln [Str ''RF Status changed: '',
          Str (if r then ''CONNECTED'' else ''DISCONNECTED'')]])" using q' by simp
    ultimately show ?thesis by blast
  next
    case False
    with assms c s1 have "s' = s\<lparr> rfModuleConnected := r, lastRFCheck := tChecked i,
        effects := effects s @ es \<rparr>"
      by (auto simp add: recheck_def emit_def Let_def)
    with q' show ?thesis by blast
  qed
qed

lemma periodicCheck_result:
  assumes "periodicCheck i s = Some s'"
  shows "\<exists>r t es. s' = s\<lparr> rfModuleConnected := r, lastRFCheck := t,
      effects := effects s @ es \<rparr> \<and>
    list_all (\<lambda>e. \<not> isTransmit e \<and> \<not> isFrame e) es"
proof (cases "RF_CHECK_INTERVAL < tCheck i - lastRFCheck s")
  case True
  with assms have "recheck i s = Some s'" by (simp add: periodicCheck_def)
  then show ?thesis by (blast dest: recheck_result)
next
  case False
  with assms have "s' = s" by (simp add: periodicCheck_def)
  then have "s' = s\<lparr> rfModuleConnected := rfModuleConnected s, lastRFCheck := lastRFCheck s,
      effects := effects s @ [] \<rparr>" by simp
  moreover have "list_all (\<lambda>e. \<not> isTransmit e \<and> \<not> isFrame e) []" by simp
  ultimately show ?thesis by blast
qed

lemma periodicCheck_same:
  assumes "periodicCheck i s = Some s'"
  shows "currentMode s' = currentMode s" "menuSelection s' = menuSelection s"
    "btnState s' = btnState s" "capturedSignal s' = capturedSignal s"
    "isTransmitting s' = isTransmitting s" "isJamming s' = isJamming s"
    "lastTransmit s' = lastTransmit s" "lastJam s' = lastJam s"
    "transmitCount s' = transmitCount s" "animFrame s' = animFrame s"
    "lastAnimUpdate s' = lastAnimUpdate s"
proof -
  from periodicCheck_result [OF assms] obtain r t es where
    "s' = s\<lparr> rfModuleConnected := r, lastRFCheck := t, effects := effects s @ es \<rparr>"
    by blast
  then show "currentMode s' = currentMode s" "menuSelection s' = menuSelection s"
    "btnState s' = btnState s" "capturedSignal s' = capturedSignal s"
    "isTransmitting s' = isTransmitting s" "isJamming s' = isJamming s"
    "lastTransmit s' = lastTransmit s" "lastJam s' = lastJam s"
    "transmitCount s' = transmitCount s" "animFrame s' = animFrame s"
    "lastAnimUpdate s' = lastAnimUpdate s"
    by simp_all
qed

lemma periodicCheck_appended:
  assumes "periodicCheck i s = Some s'"
  shows "appended (\<lambda>e. \<not> isTransmit e \<and> \<not> isFrame e) s s'"
proof -
  from periodicCheck_result [OF assms] obtain r t es where
    "s' = s\<lparr> rfModuleConnected := r, lastRFCheck := t, effects := effects s @ es \<rparr>"
    and q: "list_all (\<lambda>e. \<not> isTransmit e \<and> \<not> isFrame e) es"
    by blast
  then have "effects s' = effects s @ es" by simp
  then show ?thesis using q by (rule appendedI)
qed

lemma animUpdate_same:
  "currentMode (animUpdate i s) = currentMode s" "menuSelection (animUpdate i s) = menuSelection s"
  "rfModuleConnected (animUpdate i s) = rfModuleConnected s"
  "lastRFCheck (animUpdate i s) = lastRFCheck s"
  "btnState (animUpdate i s) = btnState s" "capturedSignal (animUpdate i s) = capturedSignal s"
  "isTransmitting (animUpdate i s) = isTransmitting s" "isJamming (animUpdate i s) = isJamming s"
  "lastTransmit (animUpdate i s) = lastTransmit s" "lastJam (animUpdate i s) = lastJam s"
  "transmitCount (animUpdate i s) = transmitCount s" "effects (animUpdate i s) = effects s"
  by (simp_all add: animUpdate_def)

lemma handleButtons_same:
  "rfModuleConnected (handleButtons g now s) = rfModuleConnected s"
  "lastRFCheck (handleButtons g now s) = lastRFCheck s"
  "capturedSignal (handleButtons g now s) = capturedSignal s"
  "animFrame (handleButtons g now s) = animFrame s"
  "lastAnimUpdate (handleButtons g now s) = lastAnimUpdate s"
  by (simp_all add: handleButtons_def Let_def dispatch_same frame_simps)

lemma upButton_appended: "appended isSerial s (upButton now s)"
  by (rule appendedI [where es = "newEffects s (upButton now s)"])
    (simp_all add: newEffects_def upButton_changed)

lemma downButton_appended: "appended isSerial s (downButton now s)"
  by (rule appendedI [where es = "newEffects s (downButton now s)"])
    (simp_all add: newEffects_def downButton_changed)

lemma selectButton_appended: "appended isSerial s (selectButton now s)"
  by (rule appendedI [where es = "newEffects s (selectButton now s)"])
    (simp_all add: newEffects_def selectButton_effects)

lemma backButton_appended: "appended isSerial s (backButton now s)"
  by (rule appendedI [where es = "newEffects s (backButton now s)"])
    (simp_all add: newEffects_def backButton_changed)

lemma handleButtons_appended: "appended isSerial s (handleButtons g now s)"
proof (cases "now - lastPress (btnState s) < DEBOUNCE_DELAY")
  case True
  then show ?thesis by (simp add: hb_in_window appended_def newEffects_def frame_simps)
next
  case False
  define s0 where "s0 = readButtons g s"
  have a: "appended isSerial s s0" by (simp add: s0_def appended_def newEffects_def frame_simps)
  have b: "appended isSerial s0 (backButton now (selectButton now (downButton now (upButton now s0))))"
    by (rule appended_trans [OF appended_trans [OF appended_trans
          [OF upButton_appended downButton_appended] selectButton_appended] backButton_appended])
  have "effects (dispatchEdges now s0) =
      effects (backButton now (selectButton now (downButton now (upButton now s0))))"
    by (rule dispatch_effects)
  with b have "appended isSerial s0 (dispatchEdges now s0)"
    by (simp add: appended_def newEffects_def)
  with a have "appended isSerial s (dispatchEdges now s0)" by (rule appended_trans)
  with False show ?thesis by (simp add: hb_outside s0_def)
qed


lemma handleRFReception_same:
  "currentMode (handleRFReception r t s) = currentMode s"
  "menuSelection (handleRFReception r t s) = menuSelection s"
  "rfModuleConnected (handleRFReception r t s) = rfModuleConnected s"
  "lastRFCheck (handleRFReception r t s) = lastRFCheck s"
  "btnState (handleRFReception r t s) = btnState s"
  "isTransmitting (handleRFReception r t s) = isTransmitting s"
  "isJamming (handleRFReception r t s) = isJamming s"
  "lastTransmit (handleRFReception r t s) = lastTransmit s"
  "lastJam (handleRFReception r t s) = lastJam s"
  "transmitCount (handleRFReception r t s) = transmitCount s"
  "animFrame (handleRFReception r t s) = animFrame s"
  "lastAnimUpdate (handleRFReception r t s) = lastAnimUpdate s"
  by (simp_all add: handleRFReception_def emit_def Let_def)

lemma handleRFReception_capturedSignal:
  "capturedSignal (handleRFReception r t s) =
     (if rxAvailable r \<and> rxValue r \<noteq> 0 then
        \<lparr> value' = rxValue r, bitLength = rxBitlength r, protocol = rxProtocol r,
          pulseLength = rxDelay r, valid = True, captureTime = t \<rparr>
      else capturedSignal s)"
  by (simp add: handleRFReception_def emit_def Let_def)

lemma modeLogic_capturedSignal:
  "capturedSignal (modeLogic i s) =
     (if currentMode s = READ \<and> rfModuleConnected s \<and> rxAvailable (rx i) \<and> rxValue (rx i) \<noteq> 0
      then \<lparr> value' = rxValue (rx i), bitLength = rxBitlength (rx i),
             protocol = rxProtocol (rx i), pulseLength = rxDelay (rx i), valid = True,
             captureTime = tMode i \<rparr>
      else capturedSignal s)"
  by (cases "currentMode s")
    (simp_all add: modeLogic_def emit_def handleRFReception_capturedSignal
      transmitSignal_def sendCaptured_def jamSignals_def sendJam_def Let_def)

lemma beforeSwitch_capturedSignal:
  assumes "beforeSwitch i s = Some s1"
  shows "capturedSignal s1 = capturedSignal s"
proof -
  from assms obtain sc where p: "periodicCheck i s = Some sc"
    and s1: "s1 = handleButtons (pins i) (tButtons i) (animUpdate i sc)"
    by (auto simp add: beforeSwitch_def)
  then show ?thesis by (simp add: handleButtons_same animUpdate_same periodicCheck_same)
qed

lemma loop_valid:
  assumes "loop i s = Some s'"
  shows "(valid (capturedSignal s) \<longrightarrow> valid (capturedSignal s')) \<and>
    (valid (capturedSignal s') \<longrightarrow>
       valid (capturedSignal s) \<or> rxAvailable (rx i) \<and> rxValue (rx i) \<noteq> 0)"
proof -
  from assms obtain s1 where b: "beforeSwitch i s = Some s1"
    and s': "s' = emit (Delay 30) (modeLogic i s1)"
    by (auto simp add: loop_def)
  from s' have "capturedSignal s' = capturedSignal (modeLogic i s1)" by (simp add: emit_def)
  then show ?thesis
    by (simp add: modeLogic_capturedSignal beforeSwitch_capturedSignal [OF b])
qed

lemma run_valid:
  "run is s = Some s' \<Longrightarrow>
   (valid (capturedSignal s) \<longrightarrow> valid (capturedSignal s')) \<and>
   (valid (capturedSignal s') \<longrightarrow>
      valid (capturedSignal s) \<or> (\<exists>i \<in> set is. rxAvailable (rx i) \<and> rxValue (rx i) \<noteq> 0))"
proof (induction "is" arbitrary: s)
  case Nil
  then show ?case by simp
next
  case (Cons i rest)
  from Cons.prems obtain s1 where l: "loop i s = Some s1" and r: "run rest s1 = Some s'"
    by (auto split: option.splits)
  from loop_valid [OF l] Cons.IH [OF r] show ?case by auto
qed

lemma setup_capturedSignal:
  assumes "setup' j s = Some s'"
  shows "capturedSignal s' = capturedSignal s"
proof -
  from assms obtain s3 r s4 where c: "checkRFModule (setupProbe j) s3 = Some (r, s4)"
    and s3: "capturedSignal s3 = capturedSignal s"
    and s': "capturedSignal s' = capturedSignal s4"
    by (auto simp add: setup'_def Let_def emit_def frame_simps split: if_splits option.splits)
  from checkRFModule_result [OF c] have "capturedSignal s4 = capturedSignal s3" by auto
  with s3 s' show ?thesis by simp
qed


lemma modeLogic_unhealthy:
  assumes "\<not> rfModuleConnected s" "currentMode s = READ \<or> currentMode s = EMULATE \<or> currentMode s = JAM"
  shows "modeLogic i s = emit (DisplayWarning ''RF Module Error'' ''Check Connection'') s"
  using assms by (auto simp add: modeLogic_def)


text \<open>A pass, and a run of passes, that reach the \<open>switch\<close> with the link down.\<close>

lemma unhealthy_pass:
  assumes b: "beforeSwitch i s = Some s1" and u: "\<not> rfModuleConnected s1"
    and m: "currentMode s1 = READ \<or> currentMode s1 = EMULATE \<or> currentMode s1 = JAM"
  shows "loop i s = Some (s1\<lparr> effects := effects s1 @
        [DisplayWarning ''RF Module Error'' ''Check Connection'', Delay 30] \<rparr>)"
    and "appended (\<lambda>e. \<not> isTransmit e \<and> \<not> isFrame e) s s1"
    and "\<exists>sc. periodicCheck i s = Some sc \<and> appended isSerial sc s1"
    and "\<not> RF_CHECK_INTERVAL < tCheck i - lastRFCheck s \<Longrightarrow> appended isSerial s s1"
proof -
  from b obtain sc where p: "periodicCheck i s = Some sc"
    and s1: "s1 = handleButtons (pins i) (tButtons i) (animUpdate i sc)"
    by (auto simp add: beforeSwitch_def)
  have "appended isSerial (animUpdate i sc) s1" unfolding s1 by (rule handleButtons_appended)
  then have sr: "appended isSerial sc s1"
    by (simp add: appended_def newEffects_def animUpdate_same)
  then have "appended (\<lambda>e. \<not> isTransmit e \<and> \<not> isFrame e) sc s1"
    by (rule appended_mono) (auto elim: isSerial.elims)
  with periodicCheck_appended [OF p]
  show "appended (\<lambda>e. \<not> isTransmit e \<and> \<not> isFrame e) s s1" by (rule appended_trans)
  from u m have "modeLogic i s1 = emit (DisplayWarning ''RF Module Error'' ''Check Connection'') s1"
    by (intro modeLogic_unhealthy) simp_all
  with b show "loop i s = Some (s1\<lparr> effects := effects s1 @
        [DisplayWarning ''RF Module Error'' ''Check Connection'', Delay 30] \<rparr>)"
    by (simp add: loop_def emit_def)
  from p sr show "\<exists>sc. periodicCheck i s = Some sc \<and> appended isSerial sc s1" by blast
  show "appended isSerial s s1" if "\<not> RF_CHECK_INTERVAL < tCheck i - lastRFCheck s"
  proof -
    from that p have "sc = s" by (simp add: periodicCheck_def)
    with sr show ?thesis by simp
  qed
qed

lemma unhealthy_run:
  "unhealthyRun ticks s \<Longrightarrow>
   \<exists>s'. run ticks s = Some s' \<and>
        appended (\<lambda>e. \<not> isTransmit e \<and> \<not> isFrame e) s s' \<and>
        capturedSignal s' = capturedSignal s"
proof (induction ticks arbitrary: s)
  case Nil
  show ?case by (simp add: appended_refl)
next
  case (Cons i rest)
  from Cons.prems obtain s1 where b: "beforeSwitch i s = Some s1"
    and u: "\<not> rfModuleConnected s1"
    and m: "currentMode s1 = READ \<or> currentMode s1 = EMULATE \<or> currentMode s1 = JAM"
    by (auto split: option.splits)
  define s2 where "s2 = s1\<lparr> effects := effects s1 @
        [DisplayWarning ''RF Module Error'' ''Check Connection'', Delay 30] \<rparr>"
  from unhealthy_pass(1) [OF b u m] have l: "loop i s = Some s2" by (simp add: s2_def)
  with Cons.prems b have "unhealthyRun rest s2" by simp
  from Cons.IH [OF this] obtain s' where r: "run rest s2 = Some s'"
    and a: "appended (\<lambda>e. \<not> isTransmit e \<and> \<not> isFrame e) s2 s'"
    and c: "capturedSignal s' = capturedSignal s2" by blast
  have "appended (\<lambda>e. \<not> isTransmit e \<and> \<not> isFrame e) s1 s2"
    by (rule appendedI [where es = "[DisplayWarning ''RF Module Error'' ''Check Connection'',
        Delay 30]"]) (simp_all add: s2_def)
  with unhealthy_pass(2) [OF b u m]
  have "appended (\<lambda>e. \<not> isTransmit e \<and> \<not> isFrame e) s s2" by (rule appended_trans)
  then have a': "appended (\<lambda>e. \<not> isTransmit e \<and> \<not> isFrame e) s s'"
    using a by (rule appended_trans)
  have "capturedSignal s2 = capturedSignal s"
    using beforeSwitch_capturedSignal [OF b] by (simp add: s2_def)
  with c have c': "capturedSignal s' = capturedSignal s" by simp
  from l r have "run (i # rest) s = Some s'" by simp
  with a' c' show ?case by blast
qed

lemma modeLogic_emulate_invalid:
  assumes "currentMode s = EMULATE" "\<not> valid (capturedSignal s)"
  shows "modeLogic i s =
    emit (if rfModuleConnected s then DrawEmulateMode
          else DisplayWarning ''RF Module Error'' ''Check Connection'') s"
  using assms by (simp add: modeLogic_def transmitSignal_def)

subsection \<open>The example passes, evaluated\<close>

lemmas button_defs = handleButtons_def readButtons_def dispatchEdges_def upButton_def
  downButton_def selectButton_def backButton_def updateLast_def stampPress_def
  buttonRisingEdge_def enterSelected_def

lemmas loop_defs = loop_def beforeSwitch_def periodicCheck_def recheck_def checkRFModule_def
  animUpdate_def modeLogic_def emit_def

lemmas tick_defs = captureTick_def downTick_def nextTick_def okProbe_def deadProbe_def
  sampleRx_def

lemma downTick_beforeSwitch: "beforeSwitch downTick readingDown = Some downSwitch"
  by (simp add: loop_defs button_defs tick_defs pin_defs readingDown_def initial_def
      downSwitch_def Let_def)

lemma nextTick_beforeSwitch: "beforeSwitch nextTick downAfter = Some downAfter"
  by (simp add: loop_defs button_defs tick_defs pin_defs readingDown_def initial_def
      downSwitch_def downAfter_def Let_def)

lemma captureTick_reading:
  "loop captureTick reading \<noteq> None"
  "capturedSignal (the (loop captureTick reading)) = sampleSignal"
  by (simp_all add: loop_defs button_defs tick_defs pin_defs reading_def initial_def
      handleRFReception_def sampleSignal_def Let_def)

lemma captureTick_transmitting:
  "loop captureTick transmitting \<noteq> None"
  by (simp add: loop_def beforeSwitch_def periodicCheck_def recheck_def checkRFModule_def
      tick_defs transmitting_def initial_def Let_def)

lemma bootIn_setup: "setup' bootIn initial \<noteq> None"
  by (simp add: setup'_def bootIn_def checkRFModule_def okProbe_def Let_def)

subsection \<open>The frame of Emulate mode\<close>

text \<open>
  The frame reads the captured signal, the transmit toggle, the transmit count and
  the animation frame, and nothing else; with nothing captured it is the same frame
  whatever the other three are.
\<close>

lemma drawEmulateMode_cong:
  "capturedSignal a = capturedSignal b \<Longrightarrow> isTransmitting a = isTransmitting b \<Longrightarrow>
   transmitCount a = transmitCount b \<Longrightarrow> animFrame a = animFrame b \<Longrightarrow>
   drawEmulateMode a = drawEmulateMode b"
  by (simp add: drawEmulateMode_def txWave_def)

lemma drawEmulateMode_invalid:
  "\<not> valid (capturedSignal s) \<Longrightarrow>
   drawEmulateMode s =
     [ClearDisplay, SetTextSize 1, SetTextColor, SetCursor 20 2,
      Println (Str ''EMULATE MODE''), DrawLine 0 12 128 12,
      SetCursor 10 28, Println (Str ''No signal!''),
      SetCursor 5 40, Println (Str ''Capture in READ''),
      SetCursor 15 48, Println (Str ''mode first''),
      SetCursor 5 57, Println (Str ''BACK=Menu''), Display]"
  by (simp add: drawEmulateMode_def)


subsection \<open>Elapsed time on the wrapping clock\<close>

text \<open>
  For times \<open>L \<le> N\<close>, the difference of the two readings is \<open>N - L\<close> modulo
  \<open>2^32\<close>: it is \<open>N - L\<close> itself when less than \<open>2^32\<close> ms have passed, and
  never more than \<open>N - L\<close>.
\<close>

lemma elapsed_unat:
  assumes "L \<le> N" "N < L + 2 ^ 32"
  shows "unat ((of_nat N :: u32) - of_nat L) = N - L"
proof -
  have "(of_nat N :: u32) - of_nat L = of_nat (N - L)" using assms(1) by simp
  moreover have "N - L < 2 ^ 32" using assms by arith
  ultimately show ?thesis by (simp add: unat_of_nat)
qed

lemma elapsed_tests:
  assumes "L \<le> N" "N < L + 2 ^ 32"
  shows "((of_nat N :: u32) - of_nat L < DEBOUNCE_DELAY) = (N - L < 200)"
    and "(TRANSMIT_INTERVAL \<le> (of_nat N :: u32) - of_nat L) = (500 \<le> N - L)"
    and "(JAM_INTERVAL \<le> (of_nat N :: u32) - of_nat L) = (50 \<le> N - L)"
    and "(RF_CHECK_INTERVAL < (of_nat N :: u32) - of_nat L) = (3000 < N - L)"
    and "(ANIM_SPEED < (of_nat N :: u32) - of_nat L) = (120 < N - L)"
    and "((of_nat N :: u32) - of_nat L < 100) = (N - L < 100)"
  by (simp_all add: word_less_nat_alt word_le_nat_alt elapsed_unat [OF assms])

subsection \<open>The replay gate over time\<close>

lemma sendCaptured_fields:
  "capturedSignal (sendCaptured now s) = capturedSignal s"
  "lastTransmit (sendCaptured now s) = now"
  "transmitCount (sendCaptured now s) = transmitCount s + 1"
  "effects (sendCaptured now s) = effects s @
     [TxSetProtocol (protocol (capturedSignal s)),
      TxSetPulseLength (pulseLength (capturedSignal s)),
      TxSend (value' (capturedSignal s)) (bitLength (capturedSignal s)),
      SerialPrintln [Str ''TX #'', Dec (sint (transmitCount s + 1))]]"
  "sendCount (sendCaptured now s) = Suc (sendCount s)"
  by (simp_all add: sendCaptured_def emit_def Let_def sendCount_def)

lemma sendCaptured_eq:
  "sendCaptured now s = s\<lparr> effects := effects s @
     [TxSetProtocol (protocol (capturedSignal s)),
      TxSetPulseLength (pulseLength (capturedSignal s)),
      TxSend (value' (capturedSignal s)) (bitLength (capturedSignal s)),
      SerialPrintln [Str ''TX #'', Dec (sint (transmitCount s + 1))]],
     transmitCount := transmitCount s + 1, lastTransmit := now \<rparr>"
  by (simp add: sendCaptured_def emit_def Let_def)

lemma transmitSignal_valid:
  "valid (capturedSignal s) \<Longrightarrow>
   transmitSignal now s = (if TRANSMIT_INTERVAL \<le> now - lastTransmit s then sendCaptured now s else s)"
  by (simp add: transmitSignal_def)

lemma elapsed_mod:
  assumes "L \<le> N"
  shows "unat ((of_nat N :: u32) - of_nat L) = (N - L) mod 2 ^ 32"
proof -
  have "(of_nat N :: u32) - of_nat L = of_nat (N - L)" using assms by simp
  then show ?thesis by (simp add: unat_of_nat)
qed

lemma gate_open_elapsed:
  assumes "L \<le> N" "TRANSMIT_INTERVAL \<le> (of_nat N :: u32) - of_nat L"
  shows "L + 500 \<le> N"
proof -
  from assms(2) have "500 \<le> unat ((of_nat N :: u32) - of_nat L)"
    by (simp add: word_le_nat_alt)
  then have "500 \<le> (N - L) mod 2 ^ 32" by (simp add: elapsed_mod [OF assms(1)])
  moreover have "(N - L) mod 2 ^ 32 \<le> N - L" by (rule mod_less_eq_dividend)
  ultimately show ?thesis using assms(1) by arith
qed

lemma replay_separated:
  "valid (capturedSignal s) \<Longrightarrow> sorted (T0 # Ts) \<Longrightarrow> lastTransmit s = of_nat T0 \<Longrightarrow>
   sorted_wrt (\<lambda>a b. a + 500 \<le> b) (T0 # sendTimes Ts s) \<and>
   sendCount (replay Ts s) = sendCount s + length (sendTimes Ts s) \<and>
   transmitCount (replay Ts s) = transmitCount s + of_nat (length (sendTimes Ts s)) \<and>
   set (sendTimes Ts s) \<subseteq> set Ts"
proof (induction Ts arbitrary: s T0)
  case Nil
  then show ?case by simp
next
  case (Cons T Ts)
  from Cons.prems have le: "T0 \<le> T" by simp
  show ?case
  proof (cases "TRANSMIT_INTERVAL \<le> (of_nat T :: u32) - lastTransmit s")
    case True
    then have far: "T0 + 500 \<le> T"
      using Cons.prems(3) gate_open_elapsed [OF le] by simp
    define s1 where "s1 = sendCaptured (of_nat T) s"
    have step: "transmitSignal (of_nat T) s = s1"
      using Cons.prems(1) True by (simp add: transmitSignal_valid s1_def)
    have v1: "valid (capturedSignal s1)" "lastTransmit s1 = of_nat T"
      "sendCount s1 = Suc (sendCount s)" "transmitCount s1 = transmitCount s + 1"
      using Cons.prems(1) by (simp_all add: s1_def sendCaptured_fields)
    have srt: "sorted (T # Ts)" using Cons.prems(2) by simp
    note ih = Cons.IH [OF v1(1) srt v1(2)]
    from ih have sep: "sorted_wrt (\<lambda>a b. a + 500 \<le> b) (T # sendTimes Ts s1)" by simp
    have "\<forall>x \<in> set (T # sendTimes Ts s1). T0 + 500 \<le> x"
    proof
      fix x assume "x \<in> set (T # sendTimes Ts s1)"
      then have "x = T \<or> T + 500 \<le> x" using sep by auto
      with far show "T0 + 500 \<le> x" by arith
    qed
    with sep have "sorted_wrt (\<lambda>a b. a + 500 \<le> b) (T0 # T # sendTimes Ts s1)" by simp
    with ih show ?thesis by (auto simp add: step v1 add.assoc)
  next
    case False
    have step: "transmitSignal (of_nat T) s = s"
      using False by (simp add: transmitSignal_def)
    have srt: "sorted (T0 # Ts)" using Cons.prems(2) by simp
    note ih = Cons.IH [OF Cons.prems(1) srt Cons.prems(3)]
    then show ?thesis by (auto simp add: step)
  qed
qed

lemma transmitting_fields:
  "valid (capturedSignal transmitting)" "lastTransmit transmitting = 4800"
  "transmitCount transmitting = 2" "currentMode transmitting = EMULATE"
  "rfModuleConnected transmitting" "isTransmitting transmitting"
  "effects transmitting = []"
  by (simp_all add: transmitting_def sampleSignal_def initial_def)

lemma transmitting_sendTimes:
  "sendTimes [5000, 5300, 5400, 5800] transmitting = [5300, 5800]"
  by (simp add: transmitSignal_def sendCaptured_def emit_def Let_def sendCount_def
      transmitting_def sampleSignal_def initial_def)


section \<open>The claims\<close>

subsection \<open>C1: the debounce guard and the previous-state snapshot\<close>

text \<open>
  Claim C1, amended. The claim has the snapshot of the previous button states updated
  on every call, also on a call that returns early inside the debounce window, so that
  every rising edge sampled inside the window is lost for good. The \<open>return\<close> of
  line 188 comes before the update of lines 264-267, so the code does this instead:
  \<^item> a call inside the window (\<open>now - lastPress < 200\<close>) only samples the four
    pins: the snapshot and everything else are as before;
  \<^item> a call outside the window sets the snapshot to the levels just sampled;
  \<^item> hence calls inside the window leave nothing behind for a later call: after
    any number of them, the next call does exactly what it would have done without
    them. Nothing is queued, and the snapshot that call compares its samples with is
    the one taken by the last call outside the window: the rising edges it tests
    (lines 192, 202, 212 and 255) are the buttons it samples as pressed whose
    snapshot says released;
  \<^item> so, at the first call outside the window, a button is accepted (its rising
    edge handled, \<open>lastPress\<close> stamped with that call's clock) if it is held at
    that call and its snapshot says released. A press that began inside the window
    and is still held is therefore handled late, not dropped;
  \<^item> and if no button is held at that call with its snapshot saying released,
    the call accepts nothing: the domain state, the log and \<open>lastPress\<close> are as
    before. This is the case of a press that was sampled only inside the window
    (released before the window ends), which is dropped; and of a button that was
    held at the call that opened the window, released and pressed again inside the
    window, and still held: its snapshot says pressed, so it is not seen as an edge.
\<close>

theorem handleButtons_early_return:
  "(t1 - lastPress (btnState s) < DEBOUNCE_DELAY \<longrightarrow>
      handleButtons g1 t1 s = readButtons g1 s \<and>
      upLast (btnState (handleButtons g1 t1 s)) = upLast (btnState s) \<and>
      downLast (btnState (handleButtons g1 t1 s)) = downLast (btnState s) \<and>
      selectLast (btnState (handleButtons g1 t1 s)) = selectLast (btnState s) \<and>
      backLast (btnState (handleButtons g1 t1 s)) = backLast (btnState s)) \<and>
   (\<not> t2 - lastPress (btnState s) < DEBOUNCE_DELAY \<longrightarrow>
      upLast (btnState (handleButtons g2 t2 s)) = (g2 BTN_UP = LOW) \<and>
      downLast (btnState (handleButtons g2 t2 s)) = (g2 BTN_DOWN = LOW) \<and>
      selectLast (btnState (handleButtons g2 t2 s)) = (g2 BTN_SELECT = LOW) \<and>
      backLast (btnState (handleButtons g2 t2 s)) = (g2 BTN_BACK = LOW)) \<and>
   ((\<forall>c\<in>set cs. snd c - lastPress (btnState s) < DEBOUNCE_DELAY) \<longrightarrow>
      handleButtons g t (handleButtonsSeq cs s) = handleButtons g t s \<and>
      upEdge (readButtons g (handleButtonsSeq cs s)) =
        (g BTN_UP = LOW \<and> \<not> upLast (btnState s)) \<and>
      downEdge (readButtons g (handleButtonsSeq cs s)) =
        (g BTN_DOWN = LOW \<and> \<not> downLast (btnState s)) \<and>
      selectEdge (readButtons g (handleButtonsSeq cs s)) =
        (g BTN_SELECT = LOW \<and> \<not> selectLast (btnState s)) \<and>
      backEdge (readButtons g (handleButtonsSeq cs s)) =
        (g BTN_BACK = LOW \<and> \<not> backLast (btnState s))) \<and>
   ((\<forall>c\<in>set cs. snd c - lastPress (btnState s) < DEBOUNCE_DELAY) \<and>
    \<not> t2 - lastPress (btnState s) < DEBOUNCE_DELAY \<and>
    (g2 BTN_UP = LOW \<and> \<not> upLast (btnState s) \<or>
     g2 BTN_DOWN = LOW \<and> \<not> downLast (btnState s) \<or>
     g2 BTN_SELECT = LOW \<and> \<not> selectLast (btnState s) \<or>
     g2 BTN_BACK = LOW \<and> \<not> backLast (btnState s)) \<longrightarrow>
      lastPress (btnState (handleButtons g2 t2 (handleButtonsSeq cs s))) = t2) \<and>
   ((\<forall>c\<in>set cs. snd c - lastPress (btnState s) < DEBOUNCE_DELAY) \<and>
    \<not> t2 - lastPress (btnState s) < DEBOUNCE_DELAY \<and>
    \<not> (g2 BTN_UP = LOW \<and> \<not> upLast (btnState s)) \<and>
    \<not> (g2 BTN_DOWN = LOW \<and> \<not> downLast (btnState s)) \<and>
    \<not> (g2 BTN_SELECT = LOW \<and> \<not> selectLast (btnState s)) \<and>
    \<not> (g2 BTN_BACK = LOW \<and> \<not> backLast (btnState s)) \<longrightarrow>
      domainState (handleButtons g2 t2 (handleButtonsSeq cs s)) = domainState s \<and>
      effects (handleButtons g2 t2 (handleButtonsSeq cs s)) = effects s \<and>
      lastPress (btnState (handleButtons g2 t2 (handleButtonsSeq cs s))) =
        lastPress (btnState s))"
proof (intro conjI impI)
  assume w: "t1 - lastPress (btnState s) < DEBOUNCE_DELAY"
  show "handleButtons g1 t1 s = readButtons g1 s" using w by (rule hb_in_window)
  show "upLast (btnState (handleButtons g1 t1 s)) = upLast (btnState s)"
    and "downLast (btnState (handleButtons g1 t1 s)) = downLast (btnState s)"
    and "selectLast (btnState (handleButtons g1 t1 s)) = selectLast (btnState s)"
    and "backLast (btnState (handleButtons g1 t1 s)) = backLast (btnState s)"
    using w by (simp_all add: hb_in_window frame_simps)
next
  assume o: "\<not> t2 - lastPress (btnState s) < DEBOUNCE_DELAY"
  show "upLast (btnState (handleButtons g2 t2 s)) = (g2 BTN_UP = LOW)"
    and "downLast (btnState (handleButtons g2 t2 s)) = (g2 BTN_DOWN = LOW)"
    and "selectLast (btnState (handleButtons g2 t2 s)) = (g2 BTN_SELECT = LOW)"
    and "backLast (btnState (handleButtons g2 t2 s)) = (g2 BTN_BACK = LOW)"
    using o by (simp_all add: hb_outside dispatch_snapshot frame_simps)
next
  assume w: "\<forall>c\<in>set cs. snd c - lastPress (btnState s) < DEBOUNCE_DELAY"
  then show "handleButtons g t (handleButtonsSeq cs s) = handleButtons g t s"
    by (rule hb_after_window)
  from w have r: "readButtons g (handleButtonsSeq cs s) = readButtons g s"
    by (simp add: seq_in_window readButtons_twice)
  show "upEdge (readButtons g (handleButtonsSeq cs s)) =
        (g BTN_UP = LOW \<and> \<not> upLast (btnState s))"
    and "downEdge (readButtons g (handleButtonsSeq cs s)) =
        (g BTN_DOWN = LOW \<and> \<not> downLast (btnState s))"
    and "selectEdge (readButtons g (handleButtonsSeq cs s)) =
        (g BTN_SELECT = LOW \<and> \<not> selectLast (btnState s))"
    and "backEdge (readButtons g (handleButtonsSeq cs s)) =
        (g BTN_BACK = LOW \<and> \<not> backLast (btnState s))"
    unfolding r by (simp_all add: readButtons_edges)
next
  assume a: "(\<forall>c\<in>set cs. snd c - lastPress (btnState s) < DEBOUNCE_DELAY) \<and>
    \<not> t2 - lastPress (btnState s) < DEBOUNCE_DELAY \<and>
    (g2 BTN_UP = LOW \<and> \<not> upLast (btnState s) \<or>
     g2 BTN_DOWN = LOW \<and> \<not> downLast (btnState s) \<or>
     g2 BTN_SELECT = LOW \<and> \<not> selectLast (btnState s) \<or>
     g2 BTN_BACK = LOW \<and> \<not> backLast (btnState s))"
  then have 1: "handleButtons g2 t2 (handleButtonsSeq cs s) = dispatchEdges t2 (readButtons g2 s)"
    by (simp add: hb_after_window hb_outside)
  from a have e: "upEdge (readButtons g2 s) \<or> downEdge (readButtons g2 s)
      \<or> selectEdge (readButtons g2 s) \<or> backEdge (readButtons g2 s)"
    by (simp add: readButtons_edges)
  show "lastPress (btnState (handleButtons g2 t2 (handleButtonsSeq cs s))) = t2"
    unfolding 1 using e by (simp add: dispatch_lastPress)
next
  assume a: "(\<forall>c\<in>set cs. snd c - lastPress (btnState s) < DEBOUNCE_DELAY) \<and>
    \<not> t2 - lastPress (btnState s) < DEBOUNCE_DELAY \<and>
    \<not> (g2 BTN_UP = LOW \<and> \<not> upLast (btnState s)) \<and>
    \<not> (g2 BTN_DOWN = LOW \<and> \<not> downLast (btnState s)) \<and>
    \<not> (g2 BTN_SELECT = LOW \<and> \<not> selectLast (btnState s)) \<and>
    \<not> (g2 BTN_BACK = LOW \<and> \<not> backLast (btnState s))"
  then have 1: "handleButtons g2 t2 (handleButtonsSeq cs s) = dispatchEdges t2 (readButtons g2 s)"
    by (simp add: hb_after_window hb_outside)
  from a have e: "\<not> upEdge (readButtons g2 s)" "\<not> downEdge (readButtons g2 s)"
    "\<not> selectEdge (readButtons g2 s)" "\<not> backEdge (readButtons g2 s)"
    by (simp_all add: readButtons_edges)
  have d: "domainState (readButtons g2 s) = domainState s"
    by (intro domainState_eqI) (simp_all add: frame_simps)
  show "domainState (handleButtons g2 t2 (handleButtonsSeq cs s)) = domainState s"
    unfolding 1 using dispatch_no_edge(1) [OF e] d by simp
  show "effects (handleButtons g2 t2 (handleButtonsSeq cs s)) = effects s"
    unfolding 1 using dispatch_no_edge(2) [OF e] by (simp add: frame_simps)
  show "lastPress (btnState (handleButtons g2 t2 (handleButtonsSeq cs s))) =
        lastPress (btnState s)"
    unfolding 1 using dispatch_no_edge(3) [OF e] by (simp add: frame_simps)
qed

text \<open>
  The theorem at work, after Down was accepted at clock 4000 (selection 1, the
  snapshot of Down says pressed). Up is pressed at clock 4100 and still held at clock
  4210: accepted there. Up is pressed at clock 4100 and released by clock 4210:
  dropped. Down is released at clock 4050, pressed again at clock 4100 and still
  held at clock 4210: not accepted, the selection stays 1.
\<close>

theorem handleButtons_early_return_witness:
  "4050 - lastPress (btnState afterDown) < DEBOUNCE_DELAY \<and>
   4100 - lastPress (btnState afterDown) < DEBOUNCE_DELAY \<and>
   \<not> 4210 - lastPress (btnState afterDown) < DEBOUNCE_DELAY \<and>
   pressUp BTN_UP = LOW \<and> \<not> upLast (btnState afterDown) \<and>
   pressDown BTN_DOWN = LOW \<and> downLast (btnState afterDown) \<and>
   handleButtons pressUp 4100 afterDown = readButtons pressUp afterDown \<and>
   upLast (btnState (handleButtons pressUp 4100 afterDown)) = upLast (btnState afterDown) \<and>
   upLast (btnState (handleButtons pressUp 4210 afterDown)) = (pressUp BTN_UP = LOW) \<and>
   handleButtons pressUp 4210 (handleButtonsSeq [(pressUp, 4100)] afterDown) =
     handleButtons pressUp 4210 afterDown \<and>
   lastPress (btnState (handleButtons pressUp 4210
     (handleButtonsSeq [(pressUp, 4100)] afterDown))) = 4210 \<and>
   domainState (handleButtons released 4210 (handleButtonsSeq [(pressUp, 4100)] afterDown)) =
     domainState afterDown \<and>
   lastPress (btnState (handleButtons released 4210
     (handleButtonsSeq [(pressUp, 4100)] afterDown))) = 4000 \<and>
   domainState (handleButtons pressDown 4210
     (handleButtonsSeq [(released, 4050), (pressDown, 4100)] afterDown)) =
     domainState afterDown \<and>
   effects (handleButtons pressDown 4210
     (handleButtonsSeq [(released, 4050), (pressDown, 4100)] afterDown)) = effects afterDown \<and>
   lastPress (btnState (handleButtons pressDown 4210
     (handleButtonsSeq [(released, 4050), (pressDown, 4100)] afterDown))) = 4000 \<and>
   menuSelection afterDown = 1"
proof -
  have h: "4050 - lastPress (btnState afterDown) < DEBOUNCE_DELAY"
    "4100 - lastPress (btnState afterDown) < DEBOUNCE_DELAY"
    "\<not> 4210 - lastPress (btnState afterDown) < DEBOUNCE_DELAY"
    "\<not> upLast (btnState afterDown)" "downLast (btnState afterDown)"
    "\<not> selectLast (btnState afterDown)" "\<not> backLast (btnState afterDown)"
    "lastPress (btnState afterDown) = 4000" "menuSelection afterDown = 1"
    by (simp_all add: afterDown_fields)
  have p: "pressUp BTN_UP = LOW" "pressUp BTN_DOWN = HIGH" "pressUp BTN_SELECT = HIGH"
    "pressUp BTN_BACK = HIGH" "pressDown BTN_UP = HIGH" "pressDown BTN_DOWN = LOW"
    "pressDown BTN_SELECT = HIGH" "pressDown BTN_BACK = HIGH"
    by (simp_all add: pin_defs)
  have c1: "\<forall>c\<in>set [(pressUp, 4100)]. snd c - lastPress (btnState afterDown) < DEBOUNCE_DELAY"
    using h(2) by simp
  have c2: "\<forall>c\<in>set [(released, 4050), (pressDown, 4100)].
      snd c - lastPress (btnState afterDown) < DEBOUNCE_DELAY"
    using h(1) h(2) by simp
  note t1 = handleButtons_early_return [where ?t1.0 = 4100 and s = afterDown and ?g1.0 = pressUp
      and ?t2.0 = 4210 and ?g2.0 = pressUp and cs = "[(pressUp, 4100)]" and g = pressUp
      and t = 4210]
  note t2 = handleButtons_early_return [where ?t1.0 = 4100 and s = afterDown and ?g1.0 = pressUp
      and ?t2.0 = 4210 and ?g2.0 = released and cs = "[(pressUp, 4100)]" and g = pressUp
      and t = 4210]
  note t3 = handleButtons_early_return [where ?t1.0 = 4100 and s = afterDown and ?g1.0 = pressUp
      and ?t2.0 = 4210 and ?g2.0 = pressDown and cs = "[(released, 4050), (pressDown, 4100)]"
      and g = pressUp and t = 4210]
  from t1 h(2) h(3) have a: "handleButtons pressUp 4100 afterDown = readButtons pressUp afterDown"
    "upLast (btnState (handleButtons pressUp 4100 afterDown)) = upLast (btnState afterDown)"
    "upLast (btnState (handleButtons pressUp 4210 afterDown)) = (pressUp BTN_UP = LOW)"
    by blast+
  from t1 c1 have b: "handleButtons pressUp 4210 (handleButtonsSeq [(pressUp, 4100)] afterDown) =
     handleButtons pressUp 4210 afterDown" by blast
  from t1 c1 h(3) h(4) p(1)
  have c: "lastPress (btnState (handleButtons pressUp 4210
     (handleButtonsSeq [(pressUp, 4100)] afterDown))) = 4210" by blast
  have n2: "released BTN_UP \<noteq> LOW" "released BTN_DOWN \<noteq> LOW" "released BTN_SELECT \<noteq> LOW"
    "released BTN_BACK \<noteq> LOW" by (simp_all add: pin_defs)
  from t2 c1 h(3) n2
  have d: "domainState (handleButtons released 4210
       (handleButtonsSeq [(pressUp, 4100)] afterDown)) = domainState afterDown"
    "lastPress (btnState (handleButtons released 4210
       (handleButtonsSeq [(pressUp, 4100)] afterDown))) = lastPress (btnState afterDown)"
    by blast+
  have n3: "pressDown BTN_UP \<noteq> LOW" "pressDown BTN_SELECT \<noteq> LOW" "pressDown BTN_BACK \<noteq> LOW"
    by (simp_all add: p)
  from t3 c2 h(3) h(5) n3
  have e: "domainState (handleButtons pressDown 4210
       (handleButtonsSeq [(released, 4050), (pressDown, 4100)] afterDown)) = domainState afterDown"
    "effects (handleButtons pressDown 4210
       (handleButtonsSeq [(released, 4050), (pressDown, 4100)] afterDown)) = effects afterDown"
    "lastPress (btnState (handleButtons pressDown 4210
       (handleButtonsSeq [(released, 4050), (pressDown, 4100)] afterDown))) =
       lastPress (btnState afterDown)"
    by blast+
  from h p(1) p(6) a b c d [unfolded h(8)] e [unfolded h(8)] show ?thesis by (intro conjI)
qed

text \<open>
  The claim as stated fails on the first of these inputs. The call at clock 4100 is
  inside the window of the press accepted at 4000: it samples Up as pressed and leaves
  \<open>upLast\<close> false, where the claim has it updated to the sample. The call at clock
  4210, with Up still held, then handles the edge (the selection goes from 1 back to 0
  and \<open>lastPress\<close> becomes 4210), where the claim has the edge dropped.
\<close>

theorem debounced_edge_not_dropped:
  "4100 - lastPress (btnState afterDown) < DEBOUNCE_DELAY \<and>
   up (btnState (handleButtons pressUp 4100 afterDown)) \<and>
   \<not> upLast (btnState (handleButtons pressUp 4100 afterDown)) \<and>
   menuSelection (handleButtons pressUp 4100 afterDown) = 1 \<and>
   menuSelection (handleButtons pressUp 4210 (handleButtons pressUp 4100 afterDown)) = 0 \<and>
   lastPress (btnState (handleButtons pressUp 4210 (handleButtons pressUp 4100 afterDown))) = 4210"
  by (simp add: afterDown_fields hb_in_window hb_outside dispatch_simps handler_simps
      readButtons_edges pin_defs menuItems_def)


subsection \<open>C2: no radio action while the link is down\<close>

text \<open>
  Claim C2. Take a pass of the loop that reaches the \<open>switch\<close> (lines 638-673)
  with the link flag false and the mode Read, Emulate or Jam. The \<open>switch\<close> then
  does one thing: it draws the warning overlay ("RF Module Error", "Check
  Connection"). The mode's radio action is not run, whatever the receiver holds and
  whatever the toggles say: no receive-poll of Read mode, no replay, no jamming
  burst. No frame of the mode is drawn, and the pass ends with its 30 ms delay.
  Before the \<open>switch\<close> the pass makes no call on the transmitter object
  (\<open>setProtocol\<close>, \<open>setPulseLength\<close>, \<open>send\<close>) and draws no frame, and
  after the link monitor's step it only writes serial lines. The link monitor is a
  step of its own at the head of every pass, in any mode: when its 3000 ms recheck
  is due, its probe listens on the receiver and pulses the TX pin, and that is how a
  module that comes back is found. In a pass with no recheck due, all that precedes
  the overlay is serial lines. The statement is about any such pass, so it holds for
  each pass of an unhealthy period: a run of such passes, however long, returns,
  makes no call on the transmitter object, draws no frame of a mode and leaves the
  captured signal as it was.
\<close>

theorem unhealthy_link_suppresses_radio:
  "(beforeSwitch i s = Some s1 \<and> \<not> rfModuleConnected s1 \<and>
    (currentMode s1 = READ \<or> currentMode s1 = EMULATE \<or> currentMode s1 = JAM) \<longrightarrow>
     loop i s = Some (s1\<lparr> effects := effects s1 @
        [DisplayWarning ''RF Module Error'' ''Check Connection'', Delay 30] \<rparr>) \<and>
     appended (\<lambda>e. \<not> isTransmit e \<and> \<not> isFrame e) s s1 \<and>
     (\<exists>sc. periodicCheck i s = Some sc \<and> appended isSerial sc s1) \<and>
     (\<not> RF_CHECK_INTERVAL < tCheck i - lastRFCheck s \<longrightarrow> appended isSerial s s1)) \<and>
   (unhealthyRun ticks s \<longrightarrow>
     (\<exists>s'. run ticks s = Some s' \<and>
        appended (\<lambda>e. \<not> isTransmit e \<and> \<not> isFrame e) s s' \<and>
        capturedSignal s' = capturedSignal s))"
proof (intro conjI impI)
  assume a: "beforeSwitch i s = Some s1 \<and> \<not> rfModuleConnected s1 \<and>
   (currentMode s1 = READ \<or> currentMode s1 = EMULATE \<or> currentMode s1 = JAM)"
  then have b: "beforeSwitch i s = Some s1" and u: "\<not> rfModuleConnected s1"
    and m: "currentMode s1 = READ \<or> currentMode s1 = EMULATE \<or> currentMode s1 = JAM"
    by simp_all
  show "loop i s = Some (s1\<lparr> effects := effects s1 @
        [DisplayWarning ''RF Module Error'' ''Check Connection'', Delay 30] \<rparr>)"
    by (rule unhealthy_pass(1) [OF b u m])
  show "appended (\<lambda>e. \<not> isTransmit e \<and> \<not> isFrame e) s s1"
    by (rule unhealthy_pass(2) [OF b u m])
  show "\<exists>sc. periodicCheck i s = Some sc \<and> appended isSerial sc s1"
    by (rule unhealthy_pass(3) [OF b u m])
  show "appended isSerial s s1" if "\<not> RF_CHECK_INTERVAL < tCheck i - lastRFCheck s"
    using that by (rule unhealthy_pass(4) [OF b u m])
next
  assume "unhealthyRun ticks s"
  then show "\<exists>s'. run ticks s = Some s' \<and>
        appended (\<lambda>e. \<not> isTransmit e \<and> \<not> isFrame e) s s' \<and>
        capturedSignal s' = capturedSignal s"
    by (rule unhealthy_run)
qed

text \<open>
  Read mode with the module absent and the sample signal waiting in the receiver: the
  pass at clock 3010, in which the recheck runs and fails, the pass 40 ms after it, in
  which no recheck is due, and the run of the two. Nothing is captured.
\<close>

theorem unhealthy_link_suppresses_radio_witness:
  "beforeSwitch downTick readingDown = Some downSwitch \<and> \<not> rfModuleConnected downSwitch \<and>
   currentMode downSwitch = READ \<and>
   loop downTick readingDown = Some downAfter \<and>
   appended (\<lambda>e. \<not> isTransmit e \<and> \<not> isFrame e) readingDown downSwitch \<and>
   beforeSwitch nextTick downAfter = Some downAfter \<and>
   \<not> rfModuleConnected downAfter \<and> currentMode downAfter = READ \<and>
   \<not> RF_CHECK_INTERVAL < tCheck nextTick - lastRFCheck downAfter \<and>
   loop nextTick downAfter = Some (downAfter\<lparr> effects := effects downAfter @
      [DisplayWarning ''RF Module Error'' ''Check Connection'', Delay 30] \<rparr>) \<and>
   appended isSerial downAfter downAfter \<and>
   unhealthyRun [downTick, nextTick] readingDown \<and>
   rxAvailable (rx downTick) \<and> rxValue (rx downTick) \<noteq> 0 \<and>
   (\<exists>s'. run [downTick, nextTick] readingDown = Some s' \<and>
      appended (\<lambda>e. \<not> isTransmit e \<and> \<not> isFrame e) readingDown s' \<and>
      capturedSignal s' = capturedSignal readingDown \<and> \<not> valid (capturedSignal s'))"
proof -
  have h1: "\<not> rfModuleConnected downSwitch" "currentMode downSwitch = READ"
    "\<not> rfModuleConnected downAfter" "currentMode downAfter = READ"
    by (simp_all add: downAfter_def downSwitch_def readingDown_def initial_def)
  have h2: "\<not> RF_CHECK_INTERVAL < tCheck nextTick - lastRFCheck downAfter"
    by (simp add: downAfter_def downSwitch_def tick_defs)
  have h3: "rxAvailable (rx downTick)" "rxValue (rx downTick) \<noteq> 0"
    "\<not> valid (capturedSignal readingDown)"
    by (simp_all add: tick_defs readingDown_def initial_def)
  note t1 = unhealthy_link_suppresses_radio [of downTick readingDown downSwitch
      "[downTick, nextTick]"]
  note t2 = unhealthy_link_suppresses_radio [of nextTick downAfter downAfter "[]"]
  from t1 downTick_beforeSwitch h1(1) h1(2)
  have a: "loop downTick readingDown = Some (downSwitch\<lparr> effects := effects downSwitch @
      [DisplayWarning ''RF Module Error'' ''Check Connection'', Delay 30] \<rparr>)"
    "appended (\<lambda>e. \<not> isTransmit e \<and> \<not> isFrame e) readingDown downSwitch"
    by blast+
  from a(1) have a1: "loop downTick readingDown = Some downAfter" by (simp add: downAfter_def)
  from t2 nextTick_beforeSwitch h1(3) h1(4) h2
  have b: "loop nextTick downAfter = Some (downAfter\<lparr> effects := effects downAfter @
      [DisplayWarning ''RF Module Error'' ''Check Connection'', Delay 30] \<rparr>)"
    "appended isSerial downAfter downAfter"
    by blast+
  have u: "unhealthyRun [downTick, nextTick] readingDown"
    by (simp add: downTick_beforeSwitch a1 nextTick_beforeSwitch b(1) h1)
  from t1 u obtain s' where r: "run [downTick, nextTick] readingDown = Some s'"
    "appended (\<lambda>e. \<not> isTransmit e \<and> \<not> isFrame e) readingDown s'"
    "capturedSignal s' = capturedSignal readingDown" by blast
  from r(3) h3(3) have "\<not> valid (capturedSignal s')" by simp
  with r have e: "\<exists>s'. run [downTick, nextTick] readingDown = Some s' \<and>
      appended (\<lambda>e. \<not> isTransmit e \<and> \<not> isFrame e) readingDown s' \<and>
      capturedSignal s' = capturedSignal readingDown \<and> \<not> valid (capturedSignal s')" by blast
  from downTick_beforeSwitch nextTick_beforeSwitch h1 h2 h3(1) h3(2) a1 a(2) b u e
  show ?thesis by (intro conjI)
qed


subsection \<open>C3: replays are at least 500 ms apart\<close>

text \<open>
  Claim C3. With a valid captured signal, \<open>transmitSignal\<close> (what the Emulate
  branch of the loop runs on each pass while \<open>isTransmitting\<close> is true and the link
  is up) either does nothing, or sets the stored protocol and pulse length, sends the
  stored value with the stored bit length, adds one to \<open>transmitCount\<close> and stamps
  the gate timer; it does the latter exactly when \<open>now - lastTransmit \<ge> 500\<close>.
  Over calls at any non-decreasing times \<open>Ts\<close> (any tick rate), starting with the
  gate timer holding the reading of a time \<open>T0\<close> not after them, any two of the
  times at which \<open>send\<close> is invoked are at least 500 ms apart, the first is at
  least 500 ms after \<open>T0\<close>, and \<open>transmitCount\<close> grows by exactly the number of
  invocations, which is the number of \<open>TxSend\<close> events added to the trace.
\<close>

theorem transmit_gating:
  "valid (capturedSignal s) \<longrightarrow>
     transmitSignal now s =
       (if TRANSMIT_INTERVAL \<le> now - lastTransmit s then
          s\<lparr> effects := effects s @
               [TxSetProtocol (protocol (capturedSignal s)),
                TxSetPulseLength (pulseLength (capturedSignal s)),
                TxSend (value' (capturedSignal s)) (bitLength (capturedSignal s)),
                SerialPrintln [Str ''TX #'', Dec (sint (transmitCount s + 1))]],
             transmitCount := transmitCount s + 1, lastTransmit := now \<rparr>
        else s) \<and>
     (currentMode s = EMULATE \<and> rfModuleConnected s \<and> isTransmitting s \<longrightarrow>
        modeLogic i s = emit DrawEmulateMode (transmitSignal (tMode i) s)) \<and>
     (sorted (T0 # Ts) \<and> lastTransmit s = of_nat T0 \<longrightarrow>
        sorted_wrt (\<lambda>a b. a + 500 \<le> b) (T0 # sendTimes Ts s) \<and>
        sendCount (replay Ts s) = sendCount s + length (sendTimes Ts s) \<and>
        transmitCount (replay Ts s) = transmitCount s + of_nat (length (sendTimes Ts s)))"
proof (intro impI conjI)
  assume v: "valid (capturedSignal s)"
  show "transmitSignal now s =
       (if TRANSMIT_INTERVAL \<le> now - lastTransmit s then
          s\<lparr> effects := effects s @
               [TxSetProtocol (protocol (capturedSignal s)),
                TxSetPulseLength (pulseLength (capturedSignal s)),
                TxSend (value' (capturedSignal s)) (bitLength (capturedSignal s)),
                SerialPrintln [Str ''TX #'', Dec (sint (transmitCount s + 1))]],
             transmitCount := transmitCount s + 1, lastTransmit := now \<rparr>
        else s)"
    using v by (simp add: transmitSignal_valid sendCaptured_eq)
  {
    assume "currentMode s = EMULATE \<and> rfModuleConnected s \<and> isTransmitting s"
    then show "modeLogic i s = emit DrawEmulateMode (transmitSignal (tMode i) s)"
      by (simp add: modeLogic_def)
  }
  {
    assume "sorted (T0 # Ts) \<and> lastTransmit s = of_nat T0"
    then have "sorted (T0 # Ts)" and "lastTransmit s = of_nat T0" by blast+
    from replay_separated [OF v this]
    show "sorted_wrt (\<lambda>a b. a + 500 \<le> b) (T0 # sendTimes Ts s)"
      and "sendCount (replay Ts s) = sendCount s + length (sendTimes Ts s)"
      and "transmitCount (replay Ts s) = transmitCount s + of_nat (length (sendTimes Ts s))"
      by blast+
  }
qed


text \<open>
  Replaying since clock 4800 with passes at 5000, 5300, 5400 and 5800: the signal is
  sent at 5300 and at 5800, and the count goes from 2 to 4.
\<close>

theorem transmit_gating_witness:
  "valid (capturedSignal transmitting) \<and> sorted [4800, 5000, 5300, 5400, 5800 :: nat] \<and>
   lastTransmit transmitting = of_nat 4800 \<and>
   sendTimes [5000, 5300, 5400, 5800] transmitting = [5300, 5800] \<and>
   sorted_wrt (\<lambda>a b. a + 500 \<le> b) (4800 # sendTimes [5000, 5300, 5400, 5800] transmitting) \<and>
   transmitCount (replay [5000, 5300, 5400, 5800] transmitting) = 4 \<and>
   sendCount (replay [5000, 5300, 5400, 5800] transmitting) = 2 \<and>
   currentMode transmitting = EMULATE \<and> rfModuleConnected transmitting \<and>
   isTransmitting transmitting \<and>
   modeLogic captureTick transmitting =
     emit DrawEmulateMode (transmitSignal (tMode captureTick) transmitting)"
proof -
  have h: "valid (capturedSignal transmitting)" "sorted [4800, 5000, 5300, 5400, 5800 :: nat]"
    "lastTransmit transmitting = of_nat 4800" "currentMode transmitting = EMULATE"
    "rfModuleConnected transmitting" "isTransmitting transmitting"
    by (simp_all add: transmitting_fields)
  have c: "sendCount transmitting = 0" by (simp add: sendCount_def transmitting_fields)
  note t = transmit_gating [of transmitting "of_nat 5000" captureTick 4800
      "[5000, 5300, 5400, 5800]"]
  from t h have a: "modeLogic captureTick transmitting =
     emit DrawEmulateMode (transmitSignal (tMode captureTick) transmitting)" by blast
  from t h have b:
    "sorted_wrt (\<lambda>a b. a + 500 \<le> b) (4800 # sendTimes [5000, 5300, 5400, 5800] transmitting)"
    "sendCount (replay [5000, 5300, 5400, 5800] transmitting) =
       sendCount transmitting + length (sendTimes [5000, 5300, 5400, 5800] transmitting)"
    "transmitCount (replay [5000, 5300, 5400, 5800] transmitting) =
       transmitCount transmitting + of_nat (length (sendTimes [5000, 5300, 5400, 5800] transmitting))"
    by blast+
  from b(2) [unfolded transmitting_sendTimes] c
  have b2: "sendCount (replay [5000, 5300, 5400, 5800] transmitting) = 2"
    by simp
  from b(3) [unfolded transmitting_sendTimes transmitting_fields]
  have b3: "transmitCount (replay [5000, 5300, 5400, 5800] transmitting) = 4"
    by simp
  from h a b(1) b2 b3 transmitting_sendTimes show ?thesis by (intro conjI)
qed



subsection \<open>C4: a capture is stored only when its value is not zero\<close>

text \<open>
  Claim C4. \<open>handleRFReception\<close> is what Read mode runs on every pass with the link
  up. When the receiver has nothing, only the poll is made. When it has an event of
  value zero, the event is discarded (\<open>resetAvailable\<close>) and the state, the
  captured signal with its \<open>valid\<close> flag included, is unchanged. When it has an
  event of nonzero value, every field of the captured signal is overwritten from the
  event and the clock, \<open>valid\<close> is set, and the event is then discarded.
\<close>

theorem capture_validity:
  "(\<not> rxAvailable r \<longrightarrow> handleRFReception r t s = emit (RxAvailable False) s) \<and>
   (rxAvailable r \<and> rxValue r = 0 \<longrightarrow>
      handleRFReception r t s = s\<lparr> effects := effects s @ [RxAvailable True, RxResetAvailable] \<rparr> \<and>
      capturedSignal (handleRFReception r t s) = capturedSignal s) \<and>
   (rxAvailable r \<and> rxValue r \<noteq> 0 \<longrightarrow>
      capturedSignal (handleRFReception r t s) =
        \<lparr> value' = rxValue r, bitLength = rxBitlength r, protocol = rxProtocol r,
          pulseLength = rxDelay r, valid = True, captureTime = t \<rparr> \<and>
      last (effects (handleRFReception r t s)) = RxResetAvailable) \<and>
   (currentMode s = READ \<and> rfModuleConnected s \<longrightarrow>
      capturedSignal (modeLogic i s) = capturedSignal (handleRFReception (rx i) (tMode i) s))"
  by (simp add: handleRFReception_def emit_def Let_def modeLogic_def)


text \<open>Noise and the sample signal, polled at clock 3121 with nothing captured so far.\<close>

theorem capture_validity_witness:
  "rxAvailable noiseRx \<and> rxValue noiseRx = 0 \<and>
   handleRFReception noiseRx 3121 reading =
     reading\<lparr> effects := effects reading @ [RxAvailable True, RxResetAvailable] \<rparr> \<and>
   capturedSignal (handleRFReception noiseRx 3121 reading) = capturedSignal reading \<and>
   \<not> valid (capturedSignal (handleRFReception noiseRx 3121 reading)) \<and>
   rxAvailable sampleRx \<and> rxValue sampleRx \<noteq> 0 \<and>
   capturedSignal (handleRFReception sampleRx 3121 reading) = sampleSignal \<and>
   currentMode reading = READ \<and> rfModuleConnected reading"
proof -
  have h: "rxAvailable noiseRx" "rxValue noiseRx = 0" "rxAvailable sampleRx"
    "rxValue sampleRx \<noteq> 0" "currentMode reading = READ" "rfModuleConnected reading"
    "\<not> valid (capturedSignal reading)"
    by (simp_all add: noiseRx_def sampleRx_def reading_def initial_def)
  from capture_validity [of noiseRx 3121 reading] h
  have a: "handleRFReception noiseRx 3121 reading =
     reading\<lparr> effects := effects reading @ [RxAvailable True, RxResetAvailable] \<rparr>"
    "capturedSignal (handleRFReception noiseRx 3121 reading) = capturedSignal reading"
    by simp_all
  from capture_validity [of sampleRx 3121 reading] h
  have b: "capturedSignal (handleRFReception sampleRx 3121 reading) = sampleSignal"
    by (simp add: sampleRx_def sampleSignal_def)
  from h a b show ?thesis by simp
qed


subsection \<open>C5: the valid flag is never cleared\<close>

text \<open>
  Claim C5. The captured signal is not valid in the initial state nor after
  \<open>setup()\<close>. Over any number of passes of the loop, whatever the inputs, a valid
  signal stays valid, and a signal that has become valid was valid at the start or
  some pass had an event of nonzero value in the receiver. A capture writes the one
  record \<open>capturedSignal\<close> (and the trace) and nothing else.
\<close>

theorem valid_never_cleared:
  "\<not> valid (capturedSignal initial) \<and>
   (setup' j initial = Some s0 \<longrightarrow> \<not> valid (capturedSignal s0)) \<and>
   (run is s = Some s' \<longrightarrow>
      (valid (capturedSignal s) \<longrightarrow> valid (capturedSignal s')) \<and>
      (valid (capturedSignal s') \<longrightarrow>
         valid (capturedSignal s) \<or> (\<exists>i \<in> set is. rxAvailable (rx i) \<and> rxValue (rx i) \<noteq> 0))) \<and>
   domainState ((handleRFReception r t s)\<lparr> capturedSignal := c \<rparr>) =
     domainState (s\<lparr> capturedSignal := c \<rparr>)"
proof (intro conjI impI)
  show "\<not> valid (capturedSignal initial)" by (simp add: initial_def)
next
  assume "setup' j initial = Some s0"
  then have "capturedSignal s0 = capturedSignal initial" by (rule setup_capturedSignal)
  then show "\<not> valid (capturedSignal s0)" by (simp add: initial_def)
next
  assume "run is s = Some s'" and "valid (capturedSignal s)"
  then show "valid (capturedSignal s')" by (simp add: run_valid)
next
  assume "run is s = Some s'" and "valid (capturedSignal s')"
  then show "valid (capturedSignal s) \<or> (\<exists>i \<in> set is. rxAvailable (rx i) \<and> rxValue (rx i) \<noteq> 0)"
    using run_valid by blast
next
  show "domainState ((handleRFReception r t s)\<lparr> capturedSignal := c \<rparr>) =
     domainState (s\<lparr> capturedSignal := c \<rparr>)"
    by (intro domainState_eqI) (simp_all add: handleRFReception_same)
qed


text \<open>
  The boot leaves the signal invalid; a pass in Read mode with the sample signal in
  the receiver makes it valid; a pass in Emulate mode keeps it valid.
\<close>

theorem valid_never_cleared_witness:
  "\<not> valid (capturedSignal initial) \<and>
   setup' bootIn initial = Some (the (setup' bootIn initial)) \<and>
   \<not> valid (capturedSignal (the (setup' bootIn initial))) \<and>
   run [captureTick] reading = Some (the (loop captureTick reading)) \<and>
   \<not> valid (capturedSignal reading) \<and>
   valid (capturedSignal (the (loop captureTick reading))) \<and>
   rxAvailable (rx captureTick) \<and> rxValue (rx captureTick) \<noteq> 0 \<and>
   run [captureTick] transmitting = Some (the (loop captureTick transmitting)) \<and>
   valid (capturedSignal transmitting) \<and>
   valid (capturedSignal (the (loop captureTick transmitting)))"
proof -
  have s: "setup' bootIn initial = Some (the (setup' bootIn initial))"
    using bootIn_setup by simp
  have r1: "run [captureTick] reading = Some (the (loop captureTick reading))"
    using captureTick_reading(1) by auto
  have r2: "run [captureTick] transmitting = Some (the (loop captureTick transmitting))"
    using captureTick_transmitting by auto
  have h: "\<not> valid (capturedSignal reading)" "valid (capturedSignal transmitting)"
    "rxAvailable (rx captureTick)" "rxValue (rx captureTick) \<noteq> 0"
    by (simp_all add: reading_def transmitting_def sampleSignal_def initial_def tick_defs)
  have v: "valid (capturedSignal (the (loop captureTick reading)))"
    by (simp add: captureTick_reading(2) sampleSignal_def)
  note t = valid_never_cleared [of bootIn "the (setup' bootIn initial)" "[captureTick]"
      transmitting "the (loop captureTick transmitting)"]
  from t s have a: "\<not> valid (capturedSignal initial)"
    "\<not> valid (capturedSignal (the (setup' bootIn initial)))" by blast+
  from t r2 h(2) have b: "valid (capturedSignal (the (loop captureTick transmitting)))"
    by blast
  from s r1 r2 h v a b show ?thesis by blast
qed


subsection \<open>C6: entering a mode and leaving it reset the toggles\<close>

text \<open>
  Claim C6. The handler of Select (lines 212-252), on a rising edge in Menu mode, sets
  the mode to Read, Emulate or Jam for the selection 0, 1 or 2 and sets
  \<open>isTransmitting\<close> and \<open>isJamming\<close> to false and \<open>transmitCount\<close> to 0; the
  handler of Back (lines 255-261), on a rising edge in any mode, sets the mode to Menu
  and both toggles to false. For a whole call of \<open>handleButtons\<close> outside the
  debounce window, where Back is handled after Select:
  \<^item> a rising edge on Select in Menu mode (with no rising edge on Back in the same
    call) sets the mode to Read, Emulate or Jam for the selection 0, 1 or 2, and
    leaves \<open>isTransmitting\<close> and \<open>isJamming\<close> false and \<open>transmitCount\<close> 0; the
    selection is the one the call ends with, which is the one it started with unless
    Up or Down had a rising edge too;
  \<^item> a rising edge on Back, in any mode, sets the mode to Menu and both toggles to
    false.
  Therefore any call of \<open>handleButtons\<close> that changes the mode into Emulate or Jam
  ends with both toggles false and \<open>transmitCount\<close> 0.
\<close>

theorem mode_entry_and_exit_resets:
  "(selectEdge h \<and> currentMode h = MENU \<longrightarrow>
      currentMode (selectButton now h) =
        (if menuSelection h = 0 then READ else if menuSelection h = 1 then EMULATE
         else if menuSelection h = 2 then JAM else MENU) \<and>
      \<not> isTransmitting (selectButton now h) \<and> \<not> isJamming (selectButton now h) \<and>
      transmitCount (selectButton now h) = 0) \<and>
   (backEdge h \<longrightarrow>
      currentMode (backButton now h) = MENU \<and>
      \<not> isTransmitting (backButton now h) \<and> \<not> isJamming (backButton now h)) \<and>
   (\<not> now - lastPress (btnState s) < DEBOUNCE_DELAY \<and> currentMode s = MENU \<and>
    g BTN_SELECT = LOW \<and> \<not> selectLast (btnState s) \<and>
    \<not> (g BTN_BACK = LOW \<and> \<not> backLast (btnState s)) \<longrightarrow>
      currentMode (handleButtons g now s) =
        (if menuSelection (handleButtons g now s) = 0 then READ
         else if menuSelection (handleButtons g now s) = 1 then EMULATE
         else if menuSelection (handleButtons g now s) = 2 then JAM else MENU) \<and>
      \<not> isTransmitting (handleButtons g now s) \<and> \<not> isJamming (handleButtons g now s) \<and>
      transmitCount (handleButtons g now s) = 0) \<and>
   (\<not> (g BTN_UP = LOW \<and> \<not> upLast (btnState s)) \<and>
    \<not> (g BTN_DOWN = LOW \<and> \<not> downLast (btnState s)) \<longrightarrow>
      menuSelection (handleButtons g now s) = menuSelection s) \<and>
   (\<not> now - lastPress (btnState s) < DEBOUNCE_DELAY \<and>
    g BTN_BACK = LOW \<and> \<not> backLast (btnState s) \<longrightarrow>
      currentMode (handleButtons g now s) = MENU \<and>
      \<not> isTransmitting (handleButtons g now s) \<and> \<not> isJamming (handleButtons g now s)) \<and>
   (currentMode (handleButtons g now s) \<noteq> currentMode s \<and>
    (currentMode (handleButtons g now s) = EMULATE \<or> currentMode (handleButtons g now s) = JAM) \<longrightarrow>
      \<not> isTransmitting (handleButtons g now s) \<and> \<not> isJamming (handleButtons g now s) \<and>
      transmitCount (handleButtons g now s) = 0)"
proof (intro conjI impI)
  assume "selectEdge h \<and> currentMode h = MENU"
  then show "currentMode (selectButton now h) =
        (if menuSelection h = 0 then READ else if menuSelection h = 1 then EMULATE
         else if menuSelection h = 2 then JAM else MENU)"
    and "\<not> isTransmitting (selectButton now h)" and "\<not> isJamming (selectButton now h)"
    and "transmitCount (selectButton now h) = 0"
    by (simp_all add: selectButton_changed)
next
  assume "backEdge h"
  then show "currentMode (backButton now h) = MENU"
    and "\<not> isTransmitting (backButton now h)" and "\<not> isJamming (backButton now h)"
    by (simp_all add: backButton_changed)
next
  assume a: "\<not> now - lastPress (btnState s) < DEBOUNCE_DELAY \<and> currentMode s = MENU \<and>
    g BTN_SELECT = LOW \<and> \<not> selectLast (btnState s) \<and>
    \<not> (g BTN_BACK = LOW \<and> \<not> backLast (btnState s))"
  then have e: "selectEdge (readButtons g s)" "\<not> backEdge (readButtons g s)"
    by (simp_all add: readButtons_edges)
  from a e show "currentMode (handleButtons g now s) =
        (if menuSelection (handleButtons g now s) = 0 then READ
         else if menuSelection (handleButtons g now s) = 1 then EMULATE
         else if menuSelection (handleButtons g now s) = 2 then JAM else MENU)"
    and "\<not> isTransmitting (handleButtons g now s)"
    and "\<not> isJamming (handleButtons g now s)"
    and "transmitCount (handleButtons g now s) = 0"
    by (simp_all add: hb_outside dispatch_simps frame_simps selectButton_changed)
next
  assume a: "\<not> (g BTN_UP = LOW \<and> \<not> upLast (btnState s)) \<and>
    \<not> (g BTN_DOWN = LOW \<and> \<not> downLast (btnState s))"
  then have e: "\<not> upEdge (readButtons g s)" "\<not> downEdge (readButtons g s)"
    by (simp_all add: readButtons_edges)
  show "menuSelection (handleButtons g now s) = menuSelection s"
  proof (cases "now - lastPress (btnState s) < DEBOUNCE_DELAY")
    case True
    then show ?thesis by (simp add: hb_in_window frame_simps)
  next
    case False
    then show ?thesis using e by (simp add: hb_outside dispatch_simps handler_simps)
  qed
next
  assume a: "\<not> now - lastPress (btnState s) < DEBOUNCE_DELAY \<and>
    g BTN_BACK = LOW \<and> \<not> backLast (btnState s)"
  then have e: "backEdge (readButtons g s)" by (simp add: readButtons_edges)
  from a e show "currentMode (handleButtons g now s) = MENU"
    and "\<not> isTransmitting (handleButtons g now s)"
    and "\<not> isJamming (handleButtons g now s)"
    by (simp_all add: hb_outside dispatch_simps)
next
  assume a: "currentMode (handleButtons g now s) \<noteq> currentMode s \<and>
    (currentMode (handleButtons g now s) = EMULATE \<or> currentMode (handleButtons g now s) = JAM)"
  have o: "\<not> now - lastPress (btnState s) < DEBOUNCE_DELAY"
    using a by (auto simp add: hb_in_window frame_simps)
  from a have sel: "selectEdge (readButtons g s) \<and> currentMode s = MENU
      \<and> \<not> backEdge (readButtons g s)"
    unfolding hb_outside [OF o]
    by (auto simp add: dispatch_modes selectButton_changed frame_simps split: if_splits)
  then show "\<not> isTransmitting (handleButtons g now s)"
    and "\<not> isJamming (handleButtons g now s)"
    and "transmitCount (handleButtons g now s) = 0"
    unfolding hb_outside [OF o]
    by (simp_all add: dispatch_simps frame_simps selectButton_changed)
qed

text \<open>
  Select on the second menu item at clock 4300 enters Emulate with the toggles reset;
  Back at clock 5000, while replaying, returns to Menu.
\<close>

theorem mode_entry_and_exit_resets_witness:
  "selectEdge (readButtons pressSelect afterDown) \<and>
   currentMode (readButtons pressSelect afterDown) = MENU \<and>
   currentMode (selectButton 4300 (readButtons pressSelect afterDown)) = EMULATE \<and>
   transmitCount (selectButton 4300 (readButtons pressSelect afterDown)) = 0 \<and>
   backEdge (readButtons pressBack transmitting) \<and>
   currentMode (backButton 5000 (readButtons pressBack transmitting)) = MENU \<and>
   \<not> isTransmitting (backButton 5000 (readButtons pressBack transmitting)) \<and>
   \<not> 4300 - lastPress (btnState afterDown) < DEBOUNCE_DELAY \<and> currentMode afterDown = MENU \<and>
   pressSelect BTN_SELECT = LOW \<and> \<not> selectLast (btnState afterDown) \<and>
   \<not> (pressSelect BTN_BACK = LOW \<and> \<not> backLast (btnState afterDown)) \<and>
   \<not> (pressSelect BTN_UP = LOW \<and> \<not> upLast (btnState afterDown)) \<and>
   \<not> (pressSelect BTN_DOWN = LOW \<and> \<not> downLast (btnState afterDown)) \<and>
   menuSelection (handleButtons pressSelect 4300 afterDown) = 1 \<and>
   currentMode (handleButtons pressSelect 4300 afterDown) = EMULATE \<and>
   currentMode (handleButtons pressSelect 4300 afterDown) \<noteq> currentMode afterDown \<and>
   \<not> isTransmitting (handleButtons pressSelect 4300 afterDown) \<and>
   \<not> isJamming (handleButtons pressSelect 4300 afterDown) \<and>
   transmitCount (handleButtons pressSelect 4300 afterDown) = 0 \<and>
   \<not> 5000 - lastPress (btnState transmitting) < DEBOUNCE_DELAY \<and>
   pressBack BTN_BACK = LOW \<and> \<not> backLast (btnState transmitting) \<and>
   currentMode (handleButtons pressBack 5000 transmitting) = MENU \<and>
   \<not> isTransmitting (handleButtons pressBack 5000 transmitting) \<and>
   \<not> isJamming (handleButtons pressBack 5000 transmitting)"
proof -
  have h1: "\<not> 4300 - lastPress (btnState afterDown) < DEBOUNCE_DELAY" "currentMode afterDown = MENU"
    "pressSelect BTN_SELECT = LOW" "\<not> selectLast (btnState afterDown)"
    "\<not> (pressSelect BTN_BACK = LOW \<and> \<not> backLast (btnState afterDown))"
    "\<not> (pressSelect BTN_UP = LOW \<and> \<not> upLast (btnState afterDown))"
    "\<not> (pressSelect BTN_DOWN = LOW \<and> \<not> downLast (btnState afterDown))"
    by (simp_all add: afterDown_fields pin_defs)
  have h2: "\<not> 5000 - lastPress (btnState transmitting) < DEBOUNCE_DELAY"
    "pressBack BTN_BACK = LOW" "\<not> backLast (btnState transmitting)"
    by (simp_all add: transmitting_def initial_def pin_defs)
  have h3: "selectEdge (readButtons pressSelect afterDown)"
    "currentMode (readButtons pressSelect afterDown) = MENU"
    "menuSelection (readButtons pressSelect afterDown) = 1"
    "backEdge (readButtons pressBack transmitting)"
    by (simp_all add: readButtons_edges frame_simps afterDown_fields transmitting_def
        initial_def pin_defs)
  note t1 = mode_entry_and_exit_resets [where h = "readButtons pressSelect afterDown"
      and now = 4300 and s = afterDown and g = pressSelect]
  note t2 = mode_entry_and_exit_resets [where h = "readButtons pressBack transmitting"
      and now = 5000 and s = transmitting and g = pressBack]
  from t1 h3 have c: "currentMode (selectButton 4300 (readButtons pressSelect afterDown)) = EMULATE"
    "transmitCount (selectButton 4300 (readButtons pressSelect afterDown)) = 0"
    by simp_all
  from t2 h3 have d: "currentMode (backButton 5000 (readButtons pressBack transmitting)) = MENU"
    "\<not> isTransmitting (backButton 5000 (readButtons pressBack transmitting))"
    by simp_all
  from t1 h1
  have m: "menuSelection (handleButtons pressSelect 4300 afterDown) = 1"
    by (simp add: afterDown_fields)
  from t1 h1 m
  have a: "currentMode (handleButtons pressSelect 4300 afterDown) = EMULATE"
    "\<not> isTransmitting (handleButtons pressSelect 4300 afterDown)"
    "\<not> isJamming (handleButtons pressSelect 4300 afterDown)"
    "transmitCount (handleButtons pressSelect 4300 afterDown) = 0"
    by simp_all
  from t2 h2
  have b: "currentMode (handleButtons pressBack 5000 transmitting) = MENU"
    "\<not> isTransmitting (handleButtons pressBack 5000 transmitting)"
    "\<not> isJamming (handleButtons pressBack 5000 transmitting)"
    by blast+
  from h1 h2 h3 c d m a b show ?thesis by (simp add: afterDown_fields)
qed

subsection \<open>C7: Select in Emulate mode\<close>

text \<open>
  Claim C7, amended. The claim has a refused Select leave the program state unchanged,
  emit one log line and show nothing on the screen. What follows holds of the handler
  of Select (lines 212-252) on a rising edge in Emulate mode, and of a whole call of
  \<open>handleButtons\<close> outside the debounce window that sees a rising edge on Select
  in Emulate mode and none on Back (Back is handled after Select). Such an edge:
  \<^item> with a valid captured signal, toggles \<open>isTransmitting\<close> and sets
    \<open>transmitCount\<close> and the gate timer \<open>lastTransmit\<close> to 0;
  \<^item> with no valid capture, leaves the mode, the menu selection, the link flag,
    the captured signal, the toggles, the counters and the timers as they were, but
    not the button bookkeeping: as for every accepted press, \<open>lastPress\<close> is
    stamped with the clock of the call and the snapshot of Select is set, so that the
    calls of the next 200 ms return early;
  \<^item> in that case the call appends two serial lines ("SELECT pressed in mode:
    2", then "ERROR: No signal captured!") and nothing else: it makes no display
    call;
  \<^item> and the press changes nothing on the screen. The one display call of that
    pass is the one of every pass in this state: the link warning when the link is
    down, and otherwise the Emulate frame, which is the same frame after the press as
    before it. With nothing captured that frame carries, pressed or not, the standing
    notice "No signal!", "Capture in READ", "mode first" (lines 466-473).
\<close>

theorem emulate_select_toggle_or_refusal:
  "(selectEdge h \<and> currentMode h = EMULATE \<and> valid (capturedSignal h) \<longrightarrow>
      isTransmitting (selectButton now h) = (\<not> isTransmitting h) \<and>
      transmitCount (selectButton now h) = 0 \<and> lastTransmit (selectButton now h) = 0) \<and>
   (selectEdge h \<and> currentMode h = EMULATE \<and> \<not> valid (capturedSignal h) \<longrightarrow>
      domainState (selectButton now h) = domainState h \<and>
      lastPress (btnState (selectButton now h)) = now \<and>
      effects (selectButton now h) = effects h @
        [SerialPrintln [Str ''SELECT pressed in mode: '', Dec 2],
         SerialPrintln [Str ''ERROR: No signal captured!'']]) \<and>
   (\<not> now - lastPress (btnState s) < DEBOUNCE_DELAY \<and> currentMode s = EMULATE \<and>
    g BTN_SELECT = LOW \<and> \<not> selectLast (btnState s) \<and>
    \<not> (g BTN_BACK = LOW \<and> \<not> backLast (btnState s)) \<and> valid (capturedSignal s) \<longrightarrow>
      isTransmitting (handleButtons g now s) = (\<not> isTransmitting s) \<and>
      transmitCount (handleButtons g now s) = 0 \<and>
      lastTransmit (handleButtons g now s) = 0 \<and>
      currentMode (handleButtons g now s) = EMULATE) \<and>
   (\<not> now - lastPress (btnState s) < DEBOUNCE_DELAY \<and> currentMode s = EMULATE \<and>
    g BTN_SELECT = LOW \<and> \<not> selectLast (btnState s) \<and>
    \<not> (g BTN_BACK = LOW \<and> \<not> backLast (btnState s)) \<and> \<not> valid (capturedSignal s) \<longrightarrow>
      domainState (handleButtons g now s) = domainState s \<and>
      lastPress (btnState (handleButtons g now s)) = now \<and>
      selectLast (btnState (handleButtons g now s)) \<and>
      (\<forall>g' now'. now' - now < DEBOUNCE_DELAY \<longrightarrow>
         handleButtons g' now' (handleButtons g now s) =
           readButtons g' (handleButtons g now s)) \<and>
      effects (handleButtons g now s) = effects s @
        [SerialPrintln [Str ''SELECT pressed in mode: '', Dec 2],
         SerialPrintln [Str ''ERROR: No signal captured!'']] \<and>
      modeLogic i (handleButtons g now s) =
        emit (if rfModuleConnected s then DrawEmulateMode
              else DisplayWarning ''RF Module Error'' ''Check Connection'')
          (handleButtons g now s) \<and>
      drawEmulateMode (handleButtons g now s) = drawEmulateMode s \<and>
      drawEmulateMode s =
        [ClearDisplay, SetTextSize 1, SetTextColor, SetCursor 20 2,
         Println (Str ''EMULATE MODE''), DrawLine 0 12 128 12,
         SetCursor 10 28, Println (Str ''No signal!''),
         SetCursor 5 40, Println (Str ''Capture in READ''),
         SetCursor 15 48, Println (Str ''mode first''),
         SetCursor 5 57, Println (Str ''BACK=Menu''), Display])"
proof (intro conjI impI)
  assume "selectEdge h \<and> currentMode h = EMULATE \<and> valid (capturedSignal h)"
  then show "isTransmitting (selectButton now h) = (\<not> isTransmitting h)"
    and "transmitCount (selectButton now h) = 0" and "lastTransmit (selectButton now h) = 0"
    by (simp_all add: selectButton_changed)
next
  assume b: "selectEdge h \<and> currentMode h = EMULATE \<and> \<not> valid (capturedSignal h)"
  then show "domainState (selectButton now h) = domainState h"
    by (intro domainState_eqI) (simp_all add: handler_simps)
  from b show "lastPress (btnState (selectButton now h)) = now"
    by (simp add: selectButton_changed)
  from b show "effects (selectButton now h) = effects h @
        [SerialPrintln [Str ''SELECT pressed in mode: '', Dec 2],
         SerialPrintln [Str ''ERROR: No signal captured!'']]"
    by (simp add: selectButton_effects)
next
  assume a: "\<not> now - lastPress (btnState s) < DEBOUNCE_DELAY \<and> currentMode s = EMULATE \<and>
    g BTN_SELECT = LOW \<and> \<not> selectLast (btnState s) \<and>
    \<not> (g BTN_BACK = LOW \<and> \<not> backLast (btnState s)) \<and> valid (capturedSignal s)"
  then have e: "selectEdge (readButtons g s)" "\<not> backEdge (readButtons g s)"
    by (simp_all add: readButtons_edges)
  from a e show "isTransmitting (handleButtons g now s) = (\<not> isTransmitting s)"
    and "transmitCount (handleButtons g now s) = 0"
    and "lastTransmit (handleButtons g now s) = 0"
    and "currentMode (handleButtons g now s) = EMULATE"
    by (simp_all add: hb_outside dispatch_simps frame_simps selectButton_changed)
next
  assume a: "\<not> now - lastPress (btnState s) < DEBOUNCE_DELAY \<and> currentMode s = EMULATE \<and>
    g BTN_SELECT = LOW \<and> \<not> selectLast (btnState s) \<and>
    \<not> (g BTN_BACK = LOW \<and> \<not> backLast (btnState s)) \<and> \<not> valid (capturedSignal s)"
  then have e: "selectEdge (readButtons g s)" "\<not> backEdge (readButtons g s)"
    by (simp_all add: readButtons_edges)
  from a have o: "handleButtons g now s = dispatchEdges now (readButtons g s)"
    by (simp add: hb_outside)
  from a e show "domainState (handleButtons g now s) = domainState s"
    unfolding o
    by (intro domainState_eqI) (simp_all add: dispatch_simps handler_simps)
  from e show st: "lastPress (btnState (handleButtons g now s)) = now"
    unfolding o by (simp add: dispatch_lastPress)
  from a show "selectLast (btnState (handleButtons g now s))"
    unfolding o by (simp add: dispatch_snapshot frame_simps)
  from st show "\<forall>g' now'. now' - now < DEBOUNCE_DELAY \<longrightarrow>
         handleButtons g' now' (handleButtons g now s) =
           readButtons g' (handleButtons g now s)"
    by (simp add: hb_in_window)
  from a e show "effects (handleButtons g now s) = effects s @
        [SerialPrintln [Str ''SELECT pressed in mode: '', Dec 2],
         SerialPrintln [Str ''ERROR: No signal captured!'']]"
    unfolding o
    by (simp add: dispatch_effects handler_simps selectButton_effects)
  from a e have m: "currentMode (handleButtons g now s) = EMULATE"
    "\<not> valid (capturedSignal (handleButtons g now s))"
    "rfModuleConnected (handleButtons g now s) = rfModuleConnected s"
    unfolding o by (simp_all add: dispatch_simps handler_simps)
  from modeLogic_emulate_invalid [OF m(1) m(2)] m(3)
  show "modeLogic i (handleButtons g now s) =
        emit (if rfModuleConnected s then DrawEmulateMode
              else DisplayWarning ''RF Module Error'' ''Check Connection'')
          (handleButtons g now s)" by simp
  from a e have f: "capturedSignal (handleButtons g now s) = capturedSignal s"
    "isTransmitting (handleButtons g now s) = isTransmitting s"
    "transmitCount (handleButtons g now s) = transmitCount s"
    "animFrame (handleButtons g now s) = animFrame s"
    unfolding o by (simp_all add: dispatch_simps handler_simps)
  then show "drawEmulateMode (handleButtons g now s) = drawEmulateMode s"
    by (rule drawEmulateMode_cong)
  from a show "drawEmulateMode s =
        [ClearDisplay, SetTextSize 1, SetTextColor, SetCursor 20 2,
         Println (Str ''EMULATE MODE''), DrawLine 0 12 128 12,
         SetCursor 10 28, Println (Str ''No signal!''),
         SetCursor 5 40, Println (Str ''Capture in READ''),
         SetCursor 15 48, Println (Str ''mode first''),
         SetCursor 5 57, Println (Str ''BACK=Menu''), Display]"
    by (simp add: drawEmulateMode_invalid)
qed

text \<open>
  Select at clock 5000 while replaying stops the replay; Select at clock 5000 in
  Emulate mode with nothing captured logs two lines, restarts the debounce window and
  leaves the frame as it was.
\<close>

theorem emulate_select_toggle_or_refusal_witness:
  "selectEdge (readButtons pressSelect transmitting) \<and>
   currentMode (readButtons pressSelect transmitting) = EMULATE \<and>
   valid (capturedSignal (readButtons pressSelect transmitting)) \<and>
   \<not> isTransmitting (selectButton 5000 (readButtons pressSelect transmitting)) \<and>
   selectEdge (readButtons pressSelect emulateEmpty) \<and>
   currentMode (readButtons pressSelect emulateEmpty) = EMULATE \<and>
   \<not> valid (capturedSignal (readButtons pressSelect emulateEmpty)) \<and>
   domainState (selectButton 5000 (readButtons pressSelect emulateEmpty)) =
     domainState (readButtons pressSelect emulateEmpty) \<and>
   \<not> 5000 - lastPress (btnState transmitting) < DEBOUNCE_DELAY \<and>
   currentMode transmitting = EMULATE \<and> pressSelect BTN_SELECT = LOW \<and>
   \<not> selectLast (btnState transmitting) \<and>
   \<not> (pressSelect BTN_BACK = LOW \<and> \<not> backLast (btnState transmitting)) \<and>
   valid (capturedSignal transmitting) \<and> isTransmitting transmitting \<and>
   \<not> isTransmitting (handleButtons pressSelect 5000 transmitting) \<and>
   transmitCount (handleButtons pressSelect 5000 transmitting) = 0 \<and>
   lastTransmit (handleButtons pressSelect 5000 transmitting) = 0 \<and>
   \<not> 5000 - lastPress (btnState emulateEmpty) < DEBOUNCE_DELAY \<and>
   currentMode emulateEmpty = EMULATE \<and> \<not> selectLast (btnState emulateEmpty) \<and>
   \<not> (pressSelect BTN_BACK = LOW \<and> \<not> backLast (btnState emulateEmpty)) \<and>
   \<not> valid (capturedSignal emulateEmpty) \<and>
   domainState (handleButtons pressSelect 5000 emulateEmpty) = domainState emulateEmpty \<and>
   lastPress (btnState (handleButtons pressSelect 5000 emulateEmpty)) = 5000 \<and>
   effects (handleButtons pressSelect 5000 emulateEmpty) =
     [SerialPrintln [Str ''SELECT pressed in mode: '', Dec 2],
      SerialPrintln [Str ''ERROR: No signal captured!'']] \<and>
   rfModuleConnected emulateEmpty \<and>
   modeLogic captureTick (handleButtons pressSelect 5000 emulateEmpty) =
     emit DrawEmulateMode (handleButtons pressSelect 5000 emulateEmpty) \<and>
   drawEmulateMode (handleButtons pressSelect 5000 emulateEmpty) = drawEmulateMode emulateEmpty"
proof -
  have h1: "\<not> 5000 - lastPress (btnState transmitting) < DEBOUNCE_DELAY"
    "currentMode transmitting = EMULATE" "pressSelect BTN_SELECT = LOW"
    "\<not> selectLast (btnState transmitting)"
    "\<not> (pressSelect BTN_BACK = LOW \<and> \<not> backLast (btnState transmitting))"
    "valid (capturedSignal transmitting)" "isTransmitting transmitting"
    by (simp_all add: transmitting_def sampleSignal_def initial_def pin_defs)
  have h2: "\<not> 5000 - lastPress (btnState emulateEmpty) < DEBOUNCE_DELAY"
    "currentMode emulateEmpty = EMULATE" "\<not> selectLast (btnState emulateEmpty)"
    "\<not> (pressSelect BTN_BACK = LOW \<and> \<not> backLast (btnState emulateEmpty))"
    "\<not> valid (capturedSignal emulateEmpty)" "effects emulateEmpty = []"
    "rfModuleConnected emulateEmpty"
    by (simp_all add: emulateEmpty_def initial_def pin_defs)
  have h3: "selectEdge (readButtons pressSelect transmitting)"
    "currentMode (readButtons pressSelect transmitting) = EMULATE"
    "valid (capturedSignal (readButtons pressSelect transmitting))"
    "isTransmitting (readButtons pressSelect transmitting)"
    "selectEdge (readButtons pressSelect emulateEmpty)"
    "currentMode (readButtons pressSelect emulateEmpty) = EMULATE"
    "\<not> valid (capturedSignal (readButtons pressSelect emulateEmpty))"
    by (simp_all add: readButtons_edges frame_simps transmitting_def sampleSignal_def
        emulateEmpty_def initial_def pin_defs)
  note t1 = emulate_select_toggle_or_refusal [where h = "readButtons pressSelect transmitting"
      and now = 5000 and s = transmitting and g = pressSelect and i = captureTick]
  note t2 = emulate_select_toggle_or_refusal [where h = "readButtons pressSelect emulateEmpty"
      and now = 5000 and s = emulateEmpty and g = pressSelect and i = captureTick]
  from t1 h3 have c: "\<not> isTransmitting (selectButton 5000 (readButtons pressSelect transmitting))"
    by simp
  from t2 h3 have d: "domainState (selectButton 5000 (readButtons pressSelect emulateEmpty)) =
     domainState (readButtons pressSelect emulateEmpty)" by simp
  from t1 h1
  have a: "\<not> isTransmitting (handleButtons pressSelect 5000 transmitting)"
    "transmitCount (handleButtons pressSelect 5000 transmitting) = 0"
    "lastTransmit (handleButtons pressSelect 5000 transmitting) = 0"
    by simp_all
  from t2 h1(3) h2(1-5)
  have b: "domainState (handleButtons pressSelect 5000 emulateEmpty) = domainState emulateEmpty"
    "lastPress (btnState (handleButtons pressSelect 5000 emulateEmpty)) = 5000"
    "effects (handleButtons pressSelect 5000 emulateEmpty) = effects emulateEmpty @
     [SerialPrintln [Str ''SELECT pressed in mode: '', Dec 2],
      SerialPrintln [Str ''ERROR: No signal captured!'']]"
    "modeLogic captureTick (handleButtons pressSelect 5000 emulateEmpty) =
     emit (if rfModuleConnected emulateEmpty then DrawEmulateMode
              else DisplayWarning ''RF Module Error'' ''Check Connection'')
       (handleButtons pressSelect 5000 emulateEmpty)"
    "drawEmulateMode (handleButtons pressSelect 5000 emulateEmpty) = drawEmulateMode emulateEmpty"
    by blast+
  from b(3) h2(6) have b3: "effects (handleButtons pressSelect 5000 emulateEmpty) =
     [SerialPrintln [Str ''SELECT pressed in mode: '', Dec 2],
      SerialPrintln [Str ''ERROR: No signal captured!'']]" by simp
  from b(4) h2(7) have b4: "modeLogic captureTick (handleButtons pressSelect 5000 emulateEmpty) =
     emit DrawEmulateMode (handleButtons pressSelect 5000 emulateEmpty)" by simp
  from h1 h2(1-5) h2(7) h3(1-3) h3(5-7) c d a b(1) b(2) b3 b4 b(5) show ?thesis
    by (intro conjI)
qed

text \<open>
  The claim as stated fails on that second input, Select at clock 5000 in Emulate mode
  with nothing captured. The state is not unchanged: \<open>lastPress\<close> goes from 0 to
  5000 and the snapshot of Select is set, and this shows: the call at clock 5100 with
  Back pressed returns early and stays in Emulate mode, where without the Select it
  would have gone back to the menu. The call logs two lines, not one. And the frame
  of that pass has "No signal!" on the screen.
\<close>

theorem emulate_refusal_stamps_and_shows_notice:
  "currentMode emulateEmpty = EMULATE \<and> \<not> valid (capturedSignal emulateEmpty) \<and>
   lastPress (btnState emulateEmpty) = 0 \<and> \<not> selectLast (btnState emulateEmpty) \<and>
   effects emulateEmpty = [] \<and>
   lastPress (btnState (handleButtons pressSelect 5000 emulateEmpty)) = 5000 \<and>
   selectLast (btnState (handleButtons pressSelect 5000 emulateEmpty)) \<and>
   handleButtons pressSelect 5000 emulateEmpty \<noteq> emulateEmpty \<and>
   effects (handleButtons pressSelect 5000 emulateEmpty) =
     [SerialPrintln [Str ''SELECT pressed in mode: '', Dec 2],
      SerialPrintln [Str ''ERROR: No signal captured!'']] \<and>
   currentMode (handleButtons pressBack 5100 (handleButtons pressSelect 5000 emulateEmpty)) =
     EMULATE \<and>
   currentMode (handleButtons pressBack 5100 emulateEmpty) = MENU \<and>
   modeLogic captureTick (handleButtons pressSelect 5000 emulateEmpty) =
     emit DrawEmulateMode (handleButtons pressSelect 5000 emulateEmpty) \<and>
   drawEmulateMode (handleButtons pressSelect 5000 emulateEmpty) =
     [ClearDisplay, SetTextSize 1, SetTextColor, SetCursor 20 2,
      Println (Str ''EMULATE MODE''), DrawLine 0 12 128 12,
      SetCursor 10 28, Println (Str ''No signal!''),
      SetCursor 5 40, Println (Str ''Capture in READ''),
      SetCursor 15 48, Println (Str ''mode first''),
      SetCursor 5 57, Println (Str ''BACK=Menu''), Display]"
proof -
  let ?s = "handleButtons pressSelect 5000 emulateEmpty"
  have h: "currentMode emulateEmpty = EMULATE" "\<not> valid (capturedSignal emulateEmpty)"
    "lastPress (btnState emulateEmpty) = 0" "\<not> selectLast (btnState emulateEmpty)"
    "\<not> backLast (btnState emulateEmpty)" "\<not> upLast (btnState emulateEmpty)"
    "\<not> downLast (btnState emulateEmpty)" "effects emulateEmpty = []"
    "rfModuleConnected emulateEmpty"
    by (simp_all add: emulateEmpty_def initial_def)
  have o: "?s = dispatchEdges 5000 (readButtons pressSelect emulateEmpty)"
    by (simp add: hb_outside h)
  have e: "selectEdge (readButtons pressSelect emulateEmpty)"
    "\<not> backEdge (readButtons pressSelect emulateEmpty)"
    "\<not> upEdge (readButtons pressSelect emulateEmpty)"
    "\<not> downEdge (readButtons pressSelect emulateEmpty)"
    by (simp_all add: readButtons_edges h pin_defs)
  have f: "lastPress (btnState ?s) = 5000" "selectLast (btnState ?s)"
    "currentMode ?s = EMULATE" "\<not> valid (capturedSignal ?s)" "rfModuleConnected ?s"
    unfolding o using e h by (simp_all add: dispatch_simps handler_simps pin_defs)
  from f(2) h(4) have ne: "?s \<noteq> emulateEmpty" by auto
  have ef: "effects ?s = [SerialPrintln [Str ''SELECT pressed in mode: '', Dec 2],
      SerialPrintln [Str ''ERROR: No signal captured!'']]"
    unfolding o using e h by (simp add: dispatch_effects handler_simps selectButton_effects)
  have w: "5100 - lastPress (btnState ?s) < DEBOUNCE_DELAY" by (simp add: f(1))
  have b1: "currentMode (handleButtons pressBack 5100 ?s) = EMULATE"
    by (simp add: hb_in_window [OF w] frame_simps f(3))
  have eb: "backEdge (readButtons pressBack emulateEmpty)"
    by (simp add: readButtons_edges h pin_defs)
  have b2: "currentMode (handleButtons pressBack 5100 emulateEmpty) = MENU"
    using eb by (simp add: hb_outside h dispatch_modes)
  have m: "modeLogic captureTick ?s = emit DrawEmulateMode ?s"
    using modeLogic_emulate_invalid [OF f(3) f(4)] f(5) by simp
  note d = drawEmulateMode_invalid [OF f(4)]
  from h(1-4) h(8) f(1) f(2) ne ef b1 b2 m d show ?thesis by (intro conjI)
qed


subsection \<open>C8: the menu selection wraps around\<close>

text \<open>
  Claim C8. In Menu mode the handler of Up (lines 192-199), on a rising edge, takes
  the selection 0 to 2, and the handler of Down (lines 202-209) takes the selection 2
  to 0; both keep a selection that is in the range \<open>[0, 3)\<close> in that range. For a
  whole call of \<open>handleButtons\<close> outside the debounce window, where Down is handled
  after Up: a rising edge on Up alone takes 0 to 2, a rising edge on Down alone takes 2
  to 0, and whatever the buttons and the clock the call keeps a selection that is in
  the range \<open>[0, 3)\<close> in that range.
\<close>

theorem menu_wraparound:
  "(upEdge h \<and> currentMode h = MENU \<and> menuSelection h = 0 \<longrightarrow>
      menuSelection (upButton now h) = 2) \<and>
   (downEdge h \<and> currentMode h = MENU \<and> menuSelection h = 2 \<longrightarrow>
      menuSelection (downButton now h) = 0) \<and>
   (0 \<le> sint (menuSelection h) \<and> sint (menuSelection h) < 3 \<longrightarrow>
      0 \<le> sint (menuSelection (upButton now h)) \<and>
      sint (menuSelection (upButton now h)) < 3 \<and>
      0 \<le> sint (menuSelection (downButton now h)) \<and>
      sint (menuSelection (downButton now h)) < 3) \<and>
   (\<not> now - lastPress (btnState s) < DEBOUNCE_DELAY \<and> currentMode s = MENU \<and>
    g BTN_UP = LOW \<and> \<not> upLast (btnState s) \<and>
    \<not> (g BTN_DOWN = LOW \<and> \<not> downLast (btnState s)) \<and> menuSelection s = 0 \<longrightarrow>
      menuSelection (handleButtons g now s) = 2) \<and>
   (\<not> now - lastPress (btnState s) < DEBOUNCE_DELAY \<and> currentMode s = MENU \<and>
    g BTN_DOWN = LOW \<and> \<not> downLast (btnState s) \<and>
    \<not> (g BTN_UP = LOW \<and> \<not> upLast (btnState s)) \<and> menuSelection s = 2 \<longrightarrow>
      menuSelection (handleButtons g now s) = 0) \<and>
   (0 \<le> sint (menuSelection s) \<and> sint (menuSelection s) < 3 \<longrightarrow>
      0 \<le> sint (menuSelection (handleButtons g now s)) \<and>
      sint (menuSelection (handleButtons g now s)) < 3)"
proof (intro conjI impI)
  assume "upEdge h \<and> currentMode h = MENU \<and> menuSelection h = 0"
  then show "menuSelection (upButton now h) = 2" by (simp add: upDown_wrap)
next
  assume "downEdge h \<and> currentMode h = MENU \<and> menuSelection h = 2"
  then show "menuSelection (downButton now h) = 0" by (simp add: upDown_wrap)
next
  assume r: "0 \<le> sint (menuSelection h) \<and> sint (menuSelection h) < 3"
  from upDown_range [OF r]
  show "0 \<le> sint (menuSelection (upButton now h))"
    and "sint (menuSelection (upButton now h)) < 3"
    and "0 \<le> sint (menuSelection (downButton now h))"
    and "sint (menuSelection (downButton now h)) < 3" by blast+
next
  assume a: "\<not> now - lastPress (btnState s) < DEBOUNCE_DELAY \<and> currentMode s = MENU \<and>
    g BTN_UP = LOW \<and> \<not> upLast (btnState s) \<and>
    \<not> (g BTN_DOWN = LOW \<and> \<not> downLast (btnState s)) \<and> menuSelection s = 0"
  then have e: "upEdge (readButtons g s)" "\<not> downEdge (readButtons g s)"
    by (simp_all add: readButtons_edges)
  from a e show "menuSelection (handleButtons g now s) = 2"
    by (simp add: hb_outside dispatch_simps handler_simps menuItems_def)
next
  assume a: "\<not> now - lastPress (btnState s) < DEBOUNCE_DELAY \<and> currentMode s = MENU \<and>
    g BTN_DOWN = LOW \<and> \<not> downLast (btnState s) \<and>
    \<not> (g BTN_UP = LOW \<and> \<not> upLast (btnState s)) \<and> menuSelection s = 2"
  then have e: "downEdge (readButtons g s)" "\<not> upEdge (readButtons g s)"
    by (simp_all add: readButtons_edges)
  from a e show "menuSelection (handleButtons g now s) = 0"
    by (simp add: hb_outside dispatch_simps handler_simps menuItems_def)
next
  assume r: "0 \<le> sint (menuSelection s) \<and> sint (menuSelection s) < 3"
  then have m: "menuSelection s = 0 \<or> menuSelection s = 1 \<or> menuSelection s = 2"
    by (simp add: sint_range3)
  have "menuSelection (handleButtons g now s) = 0 \<or> menuSelection (handleButtons g now s) = 1
      \<or> menuSelection (handleButtons g now s) = 2"
  proof (cases "now - lastPress (btnState s) < DEBOUNCE_DELAY")
    case True
    then show ?thesis using m by (simp add: hb_in_window frame_simps)
  next
    case False
    then show ?thesis using m
      by (auto simp add: hb_outside dispatch_simps handler_simps menuItems_def)
  qed
  then show "0 \<le> sint (menuSelection (handleButtons g now s))"
    and "sint (menuSelection (handleButtons g now s)) < 3" by auto
qed

text \<open>
  Up from the initial menu (selection 0) at clock 4000 gives 2; Down from there at
  clock 4300 gives 0 again.
\<close>

theorem menu_wraparound_witness:
  "upEdge (readButtons pressUp initial) \<and> currentMode (readButtons pressUp initial) = MENU \<and>
   menuSelection (readButtons pressUp initial) = 0 \<and>
   menuSelection (upButton 4000 (readButtons pressUp initial)) = 2 \<and>
   \<not> 4000 - lastPress (btnState initial) < DEBOUNCE_DELAY \<and> currentMode initial = MENU \<and>
   pressUp BTN_UP = LOW \<and> \<not> upLast (btnState initial) \<and>
   \<not> (pressUp BTN_DOWN = LOW \<and> \<not> downLast (btnState initial)) \<and>
   menuSelection initial = 0 \<and>
   0 \<le> sint (menuSelection initial) \<and> sint (menuSelection initial) < 3 \<and>
   menuSelection (handleButtons pressUp 4000 initial) = 2 \<and>
   sint (menuSelection (handleButtons pressUp 4000 initial)) < 3 \<and>
   \<not> 4300 - lastPress (btnState (handleButtons pressUp 4000 initial)) < DEBOUNCE_DELAY \<and>
   currentMode (handleButtons pressUp 4000 initial) = MENU \<and>
   pressDown BTN_DOWN = LOW \<and> \<not> downLast (btnState (handleButtons pressUp 4000 initial)) \<and>
   \<not> (pressDown BTN_UP = LOW \<and> \<not> upLast (btnState (handleButtons pressUp 4000 initial))) \<and>
   menuSelection (handleButtons pressDown 4300 (handleButtons pressUp 4000 initial)) = 0"
proof -
  have h1: "\<not> 4000 - lastPress (btnState initial) < DEBOUNCE_DELAY" "currentMode initial = MENU"
    "pressUp BTN_UP = LOW" "\<not> upLast (btnState initial)"
    "\<not> (pressUp BTN_DOWN = LOW \<and> \<not> downLast (btnState initial))"
    "menuSelection initial = 0"
    "0 \<le> sint (menuSelection initial)" "sint (menuSelection initial) < 3"
    by (simp_all add: initial_fields pin_defs)
  have h2: "\<not> 4300 - lastPress (btnState (handleButtons pressUp 4000 initial)) < DEBOUNCE_DELAY"
    "currentMode (handleButtons pressUp 4000 initial) = MENU"
    "pressDown BTN_DOWN = LOW"
    "\<not> downLast (btnState (handleButtons pressUp 4000 initial))"
    "\<not> (pressDown BTN_UP = LOW \<and> \<not> upLast (btnState (handleButtons pressUp 4000 initial)))"
    by (simp_all add: hb_outside initial_fields dispatch_simps handler_simps readButtons_edges
        pin_defs)
  have h3: "upEdge (readButtons pressUp initial)"
    "currentMode (readButtons pressUp initial) = MENU"
    "menuSelection (readButtons pressUp initial) = 0"
    by (simp_all add: readButtons_edges frame_simps initial_fields pin_defs)
  note t1 = menu_wraparound [where h = "readButtons pressUp initial" and now = 4000
      and s = initial and g = pressUp]
  from t1 h3 have c: "menuSelection (upButton 4000 (readButtons pressUp initial)) = 2"
    by simp
  from t1 h1
  have a: "menuSelection (handleButtons pressUp 4000 initial) = 2"
    "sint (menuSelection (handleButtons pressUp 4000 initial)) < 3" by blast+
  from menu_wraparound [where now = 4300 and s = "handleButtons pressUp 4000 initial"
      and g = pressDown] h2 a
  have b: "menuSelection (handleButtons pressDown 4300 (handleButtons pressUp 4000 initial)) = 0"
    by blast
  from h1 h2 h3 c a b show ?thesis by blast
qed


subsection \<open>C9: the interval tests are safe when the clock wraps\<close>

text \<open>
  Claim C9. Every elapsed-interval test of the sketch subtracts the stored reading
  from the current one in unsigned 32-bit arithmetic and compares the difference with
  the interval: the debounce window (line 187), the transmit gate (line 300), the jam
  gate (line 317), the link recheck (line 617), the animation tick (line 629) and the
  listen window of the probe (line 148). Let the stored reading be the reading of time
  \<open>L\<close> and the current one the reading of time \<open>N\<close>, with \<open>L \<le> N\<close> and less
  than \<open>2^32\<close> ms between them. Then each test decides as the same comparison on the
  true elapsed time \<open>N - L\<close> does, wherever the clock wrapped in between.
\<close>

theorem interval_tests_wrap_safe:
  "L \<le> N \<and> N < L + 2 ^ 32 \<longrightarrow>
     (lastPress (btnState s) = of_nat L \<longrightarrow>
        handleButtons g (of_nat N) s =
          (if N - L < 200 then readButtons g s
           else dispatchEdges (of_nat N) (readButtons g s))) \<and>
     (lastTransmit s = of_nat L \<longrightarrow>
        transmitSignal (of_nat N) s =
          (if 500 \<le> N - L \<and> valid (capturedSignal s) then sendCaptured (of_nat N) s else s)) \<and>
     (lastJam s = of_nat L \<longrightarrow>
        jamSignals (of_nat N) rnd s = (if 50 \<le> N - L then sendJam (of_nat N) rnd s else s)) \<and>
     (lastRFCheck s = of_nat L \<and> tCheck i = of_nat N \<longrightarrow>
        periodicCheck i s = (if 3000 < N - L then recheck i s else Some s)) \<and>
     (lastAnimUpdate s = of_nat L \<and> tAnim i = of_nat N \<longrightarrow>
        animUpdate i s =
          (if 120 < N - L then
             s\<lparr> animFrame := (animFrame s + 1) mod 1000, lastAnimUpdate := tAnimSet i \<rparr>
           else s)) \<and>
     listen (of_nat L) ((of_nat N, av) # rest) =
       (if N - L < 100 then
          (if av then Some (True, [RxAvailable True, RxResetAvailable])
           else map_option (\<lambda>(r, es). (r, RxAvailable False # es)) (listen (of_nat L) rest))
        else Some (False, []))"
proof (intro impI)
  assume "L \<le> N \<and> N < L + 2 ^ 32"
  then have le: "L \<le> N" and lt: "N < L + 2 ^ 32" by blast+
  note e = elapsed_tests [OF le lt]
  have 1: "handleButtons g (of_nat N) s =
          (if N - L < 200 then readButtons g s
           else dispatchEdges (of_nat N) (readButtons g s))"
    if "lastPress (btnState s) = of_nat L"
    using that e(1) by (simp add: handleButtons_def Let_def frame_simps)
  have 2: "transmitSignal (of_nat N) s =
          (if 500 \<le> N - L \<and> valid (capturedSignal s) then sendCaptured (of_nat N) s else s)"
    if "lastTransmit s = of_nat L"
    using that e(2) by (simp add: transmitSignal_def)
  have 3: "jamSignals (of_nat N) rnd s = (if 50 \<le> N - L then sendJam (of_nat N) rnd s else s)"
    if "lastJam s = of_nat L"
    using that e(3) by (simp add: jamSignals_def)
  have 4: "periodicCheck i s = (if 3000 < N - L then recheck i s else Some s)"
    if "lastRFCheck s = of_nat L \<and> tCheck i = of_nat N"
    using that e(4) by (simp add: periodicCheck_def)
  have 5: "animUpdate i s =
          (if 120 < N - L then
             s\<lparr> animFrame := (animFrame s + 1) mod 1000, lastAnimUpdate := tAnimSet i \<rparr>
           else s)"
    if "lastAnimUpdate s = of_nat L \<and> tAnim i = of_nat N"
    using that e(5) by (simp add: animUpdate_def)
  have 6: "listen (of_nat L) ((of_nat N, av) # rest) =
       (if N - L < 100 then
          (if av then Some (True, [RxAvailable True, RxResetAvailable])
           else map_option (\<lambda>(r, es). (r, RxAvailable False # es)) (listen (of_nat L) rest))
        else Some (False, []))"
    using e(6) by simp
  from 1 2 3 4 5 6 show "(lastPress (btnState s) = of_nat L \<longrightarrow>
        handleButtons g (of_nat N) s =
          (if N - L < 200 then readButtons g s
           else dispatchEdges (of_nat N) (readButtons g s))) \<and>
     (lastTransmit s = of_nat L \<longrightarrow>
        transmitSignal (of_nat N) s =
          (if 500 \<le> N - L \<and> valid (capturedSignal s) then sendCaptured (of_nat N) s else s)) \<and>
     (lastJam s = of_nat L \<longrightarrow>
        jamSignals (of_nat N) rnd s = (if 50 \<le> N - L then sendJam (of_nat N) rnd s else s)) \<and>
     (lastRFCheck s = of_nat L \<and> tCheck i = of_nat N \<longrightarrow>
        periodicCheck i s = (if 3000 < N - L then recheck i s else Some s)) \<and>
     (lastAnimUpdate s = of_nat L \<and> tAnim i = of_nat N \<longrightarrow>
        animUpdate i s =
          (if 120 < N - L then
             s\<lparr> animFrame := (animFrame s + 1) mod 1000, lastAnimUpdate := tAnimSet i \<rparr>
           else s)) \<and>
     listen (of_nat L) ((of_nat N, av) # rest) =
       (if N - L < 100 then
          (if av then Some (True, [RxAvailable True, RxResetAvailable])
           else map_option (\<lambda>(r, es). (r, RxAvailable False # es)) (listen (of_nat L) rest))
        else Some (False, []))"
    by blast
qed


text \<open>
  All timers stamped 100 ms before the wrap, all readings 450 ms after it (550 ms
  elapsed): the debounce window is over, the replay and the jam gates are open, the
  animation advances and the link recheck is not due.
\<close>

theorem interval_tests_wrap_safe_witness:
  "(4294967196 :: nat) \<le> 4294967746 \<and> (4294967746 :: nat) < 4294967196 + 2 ^ 32 \<and>
   (of_nat 4294967746 :: u32) = 450 \<and>
   lastPress (btnState wrapState) = of_nat 4294967196 \<and>
   lastTransmit wrapState = of_nat 4294967196 \<and> lastJam wrapState = of_nat 4294967196 \<and>
   lastRFCheck wrapState = of_nat 4294967196 \<and> lastAnimUpdate wrapState = of_nat 4294967196 \<and>
   tCheck wrapTick = of_nat 4294967746 \<and> tAnim wrapTick = of_nat 4294967746 \<and>
   handleButtons released 450 wrapState = dispatchEdges 450 (readButtons released wrapState) \<and>
   transmitSignal 450 wrapState = sendCaptured 450 wrapState \<and>
   jamSignals 450 1 wrapState = sendJam 450 1 wrapState \<and>
   periodicCheck wrapTick wrapState = Some wrapState \<and>
   animUpdate wrapTick wrapState = wrapState\<lparr> animFrame := 1, lastAnimUpdate := 451 \<rparr>"
proof -
  have h: "(4294967196 :: nat) \<le> 4294967746" "(4294967746 :: nat) < 4294967196 + 2 ^ 32"
    "lastPress (btnState wrapState) = of_nat 4294967196"
    "lastTransmit wrapState = of_nat 4294967196" "lastJam wrapState = of_nat 4294967196"
    "lastRFCheck wrapState = of_nat 4294967196" "lastAnimUpdate wrapState = of_nat 4294967196"
    "tCheck wrapTick = of_nat 4294967746" "tAnim wrapTick = of_nat 4294967746"
    "valid (capturedSignal wrapState)" "animFrame wrapState = 0" "tAnimSet wrapTick = 451"
    by (simp_all add: wrapState_def wrapTick_def captureTick_def transmitting_def
        sampleSignal_def initial_def)
  have n: "(of_nat 4294967746 :: u32) = 450" by simp
  note t = interval_tests_wrap_safe [of 4294967196 4294967746 wrapState released 1 wrapTick
      False "[]"]
  from t h have a: "handleButtons released (of_nat 4294967746) wrapState =
      dispatchEdges (of_nat 4294967746) (readButtons released wrapState)"
    "transmitSignal (of_nat 4294967746) wrapState = sendCaptured (of_nat 4294967746) wrapState"
    "jamSignals (of_nat 4294967746) 1 wrapState = sendJam (of_nat 4294967746) 1 wrapState"
    "periodicCheck wrapTick wrapState = Some wrapState"
    "animUpdate wrapTick wrapState = wrapState\<lparr> animFrame := 1, lastAnimUpdate := 451 \<rparr>"
    by simp_all
  from h n a [unfolded n] show ?thesis by simp
qed


subsection \<open>C10: every rising edge restarts the debounce window\<close>

text \<open>
  Claim C10. Outside the debounce window, a call that sees a rising edge on any of the
  four buttons stamps \<open>lastPress\<close> with its clock, so that every call within the
  next 200 ms returns early, whatever the buttons do. This is so also when the edge
  changes nothing else: in Read mode no edge but Back's changes the domain state (Up,
  Down and Select are without effect there), and neither does Back alone in Menu mode
  with both toggles off.
\<close>

theorem effect_free_press_stamps:
  "\<not> now - lastPress (btnState s) < DEBOUNCE_DELAY \<and>
   (g BTN_UP = LOW \<and> \<not> upLast (btnState s) \<or> g BTN_DOWN = LOW \<and> \<not> downLast (btnState s) \<or>
    g BTN_SELECT = LOW \<and> \<not> selectLast (btnState s) \<or>
    g BTN_BACK = LOW \<and> \<not> backLast (btnState s)) \<longrightarrow>
     lastPress (btnState (handleButtons g now s)) = now \<and>
     (\<forall>g' now'. now' - now < DEBOUNCE_DELAY \<longrightarrow>
        handleButtons g' now' (handleButtons g now s) = readButtons g' (handleButtons g now s)) \<and>
     (currentMode s = READ \<and> \<not> (g BTN_BACK = LOW \<and> \<not> backLast (btnState s)) \<longrightarrow>
        domainState (handleButtons g now s) = domainState s) \<and>
     (currentMode s = MENU \<and> \<not> isTransmitting s \<and> \<not> isJamming s \<and>
      \<not> (g BTN_UP = LOW \<and> \<not> upLast (btnState s)) \<and>
      \<not> (g BTN_DOWN = LOW \<and> \<not> downLast (btnState s)) \<and>
      \<not> (g BTN_SELECT = LOW \<and> \<not> selectLast (btnState s)) \<longrightarrow>
        domainState (handleButtons g now s) = domainState s)"
proof (intro impI)
  assume a: "\<not> now - lastPress (btnState s) < DEBOUNCE_DELAY \<and>
   (g BTN_UP = LOW \<and> \<not> upLast (btnState s) \<or> g BTN_DOWN = LOW \<and> \<not> downLast (btnState s) \<or>
    g BTN_SELECT = LOW \<and> \<not> selectLast (btnState s) \<or>
    g BTN_BACK = LOW \<and> \<not> backLast (btnState s))"
  then have o: "handleButtons g now s = dispatchEdges now (readButtons g s)"
    by (simp add: hb_outside)
  from a have e: "upEdge (readButtons g s) \<or> downEdge (readButtons g s)
      \<or> selectEdge (readButtons g s) \<or> backEdge (readButtons g s)"
    by (simp add: readButtons_edges)
  then have st: "lastPress (btnState (handleButtons g now s)) = now"
    unfolding o by (simp add: dispatch_lastPress)
  have sup: "\<forall>g' now'. now' - now < DEBOUNCE_DELAY \<longrightarrow>
        handleButtons g' now' (handleButtons g now s) = readButtons g' (handleButtons g now s)"
    using st by (simp add: hb_in_window)
  have rd: "domainState (handleButtons g now s) = domainState s"
    if "currentMode s = READ \<and> \<not> (g BTN_BACK = LOW \<and> \<not> backLast (btnState s))"
  proof -
    from that have b: "\<not> backEdge (readButtons g s)" by (simp add: readButtons_edges)
    from that b show ?thesis unfolding o
      by (intro domainState_eqI) (simp_all add: dispatch_simps handler_simps)
  qed
  have mn: "domainState (handleButtons g now s) = domainState s"
    if "currentMode s = MENU \<and> \<not> isTransmitting s \<and> \<not> isJamming s \<and>
      \<not> (g BTN_UP = LOW \<and> \<not> upLast (btnState s)) \<and>
      \<not> (g BTN_DOWN = LOW \<and> \<not> downLast (btnState s)) \<and>
      \<not> (g BTN_SELECT = LOW \<and> \<not> selectLast (btnState s))"
  proof -
    from that have b: "\<not> upEdge (readButtons g s)" "\<not> downEdge (readButtons g s)"
      "\<not> selectEdge (readButtons g s)" by (simp_all add: readButtons_edges)
    from that b show ?thesis unfolding o
      by (intro domainState_eqI) (simp_all add: dispatch_simps handler_simps)
  qed
  from st sup rd mn show "lastPress (btnState (handleButtons g now s)) = now \<and>
     (\<forall>g' now'. now' - now < DEBOUNCE_DELAY \<longrightarrow>
        handleButtons g' now' (handleButtons g now s) = readButtons g' (handleButtons g now s)) \<and>
     (currentMode s = READ \<and> \<not> (g BTN_BACK = LOW \<and> \<not> backLast (btnState s)) \<longrightarrow>
        domainState (handleButtons g now s) = domainState s) \<and>
     (currentMode s = MENU \<and> \<not> isTransmitting s \<and> \<not> isJamming s \<and>
      \<not> (g BTN_UP = LOW \<and> \<not> upLast (btnState s)) \<and>
      \<not> (g BTN_DOWN = LOW \<and> \<not> downLast (btnState s)) \<and>
      \<not> (g BTN_SELECT = LOW \<and> \<not> selectLast (btnState s)) \<longrightarrow>
        domainState (handleButtons g now s) = domainState s)"
    by blast
qed

text \<open>
  Select in Read mode at clock 5000 changes nothing and still makes the call at clock
  5100 return early with Up pressed; Back in the initial menu changes nothing either.
\<close>

theorem effect_free_press_stamps_witness:
  "\<not> 5000 - lastPress (btnState reading) < DEBOUNCE_DELAY \<and>
   pressSelect BTN_SELECT = LOW \<and> \<not> selectLast (btnState reading) \<and>
   currentMode reading = READ \<and>
   \<not> (pressSelect BTN_BACK = LOW \<and> \<not> backLast (btnState reading)) \<and>
   lastPress (btnState (handleButtons pressSelect 5000 reading)) = 5000 \<and>
   5100 - 5000 < DEBOUNCE_DELAY \<and>
   handleButtons pressUp 5100 (handleButtons pressSelect 5000 reading) =
     readButtons pressUp (handleButtons pressSelect 5000 reading) \<and>
   domainState (handleButtons pressSelect 5000 reading) = domainState reading \<and>
   \<not> 5000 - lastPress (btnState initial) < DEBOUNCE_DELAY \<and>
   pressBack BTN_BACK = LOW \<and> \<not> backLast (btnState initial) \<and>
   currentMode initial = MENU \<and> \<not> isTransmitting initial \<and> \<not> isJamming initial \<and>
   \<not> (pressBack BTN_UP = LOW \<and> \<not> upLast (btnState initial)) \<and>
   \<not> (pressBack BTN_DOWN = LOW \<and> \<not> downLast (btnState initial)) \<and>
   \<not> (pressBack BTN_SELECT = LOW \<and> \<not> selectLast (btnState initial)) \<and>
   lastPress (btnState (handleButtons pressBack 5000 initial)) = 5000 \<and>
   domainState (handleButtons pressBack 5000 initial) = domainState initial"
proof -
  have h1: "\<not> 5000 - lastPress (btnState reading) < DEBOUNCE_DELAY"
    "pressSelect BTN_SELECT = LOW" "\<not> selectLast (btnState reading)"
    "currentMode reading = READ"
    "\<not> (pressSelect BTN_BACK = LOW \<and> \<not> backLast (btnState reading))"
    by (simp_all add: reading_def initial_def pin_defs)
  have h2: "\<not> 5000 - lastPress (btnState initial) < DEBOUNCE_DELAY"
    "pressBack BTN_BACK = LOW" "\<not> backLast (btnState initial)"
    "currentMode initial = MENU" "\<not> isTransmitting initial" "\<not> isJamming initial"
    "\<not> (pressBack BTN_UP = LOW \<and> \<not> upLast (btnState initial))"
    "\<not> (pressBack BTN_DOWN = LOW \<and> \<not> downLast (btnState initial))"
    "\<not> (pressBack BTN_SELECT = LOW \<and> \<not> selectLast (btnState initial))"
    by (simp_all add: initial_fields pin_defs)
  have w: "(5100::u32) - 5000 < DEBOUNCE_DELAY" by simp
  from effect_free_press_stamps [of 5000 reading pressSelect] h1
  have a: "lastPress (btnState (handleButtons pressSelect 5000 reading)) = 5000"
    "\<forall>g' now'. now' - 5000 < DEBOUNCE_DELAY \<longrightarrow>
       handleButtons g' now' (handleButtons pressSelect 5000 reading) =
       readButtons g' (handleButtons pressSelect 5000 reading)"
    "domainState (handleButtons pressSelect 5000 reading) = domainState reading"
    by simp_all
  from a(2) w have a2: "handleButtons pressUp 5100 (handleButtons pressSelect 5000 reading) =
     readButtons pressUp (handleButtons pressSelect 5000 reading)" by blast
  from effect_free_press_stamps [of 5000 initial pressBack] h2
  have b: "lastPress (btnState (handleButtons pressBack 5000 initial)) = 5000"
    "domainState (handleButtons pressBack 5000 initial) = domainState initial"
    by simp_all
  from h1 h2 w a(1) a(3) a2 b show ?thesis by simp
qed

end
